theory Spec2Isabelle
  imports Complex_Main "HOL-Library.Word"
begin

unbundle bit_operations_syntax

section \<open>JavaScript data\<close>

text \<open>
  A JavaScript string is a sequence of UTF-16 code units, and \<open>length\<close>, \<open>padEnd\<close>,
  \<open>substring\<close>, \<open>replace\<close> and \<open>includes\<close> all count code units. A byte buffer
  (\<open>Uint8Array\<close>, \<open>ArrayBuffer\<close>) is a list of 8-bit words.
\<close>

type_synonym js_string = "16 word list"
type_synonym bytes = "8 word list"

definition js :: "string \<Rightarrow> js_string" where
  "js s = map (\<lambda>c. of_nat (of_char c)) s"

text \<open>\<open>s.replace(/a/g, b)\<close> for a one-character pattern and replacement.\<close>

definition replace_all :: "16 word \<Rightarrow> 16 word \<Rightarrow> js_string \<Rightarrow> js_string" where
  "replace_all a b s = map (\<lambda>c. if c = a then b else c) s"

text \<open>\<open>s.includes(sub)\<close>.\<close>

fun js_includes :: "js_string \<Rightarrow> js_string \<Rightarrow> bool" where
  "js_includes [] sub = (sub = [])"
| "js_includes (c # cs) sub = (take (length sub) (c # cs) = sub \<or> js_includes cs sub)"

text \<open>\<open>s.padEnd(n, c)\<close> for a one-character filler, and \<open>s.substring(0, n)\<close>.\<close>

definition padEnd :: "nat \<Rightarrow> 16 word \<Rightarrow> js_string \<Rightarrow> js_string" where
  "padEnd n c s = s @ replicate (n - length s) c"

definition substring0 :: "nat \<Rightarrow> js_string \<Rightarrow> js_string" where
  "substring0 n s = take n s"

text \<open>
  A JavaScript number. Finite doubles are embedded in the rationals (positive and negative
  zero are both \<open>Finite 0\<close>: they agree on truthiness, on \<open><\<close> and on JSON output).
\<close>

datatype js_number = Finite rat | NaN | PosInfinity | NegInfinity

definition isNaN :: "js_number \<Rightarrow> bool" where
  "isNaN n = (n = NaN)"

text \<open>\<open>n < 0\<close>: false for \<open>NaN\<close>.\<close>

fun lt_zero :: "js_number \<Rightarrow> bool" where
  "lt_zero (Finite q) = (q < 0)"
| "lt_zero NegInfinity = True"
| "lt_zero _ = False"

datatype js_value =
    JUndefined
  | JNull
  | JBool bool
  | JNumber js_number
  | JString js_string
  | JArray "js_value list"
  | JObject "(js_string \<times> js_value) list"

text \<open>Truthiness (\<open>!!v\<close>, \<open>Boolean(v)\<close>).\<close>

fun truthy :: "js_value \<Rightarrow> bool" where
  "truthy JUndefined = False"
| "truthy JNull = False"
| "truthy (JBool b) = b"
| "truthy (JNumber n) = (n \<noteq> Finite 0 \<and> n \<noteq> NaN)"
| "truthy (JString s) = (s \<noteq> [])"
| "truthy (JArray _) = True"
| "truthy (JObject _) = True"

fun typeof_object :: "js_value \<Rightarrow> bool" where
  "typeof_object JNull = True"
| "typeof_object (JArray _) = True"
| "typeof_object (JObject _) = True"
| "typeof_object _ = False"

fun typeof_string :: "js_value \<Rightarrow> bool" where
  "typeof_string (JString _) = True"
| "typeof_string _ = False"

text \<open>
  Property read \<open>v.k\<close> for the field names of an instruction set: an own property of an
  object, \<open>undefined\<close> on an array (none of these names is an index or \<open>length\<close>).
\<close>

fun get_property :: "js_value \<Rightarrow> js_string \<Rightarrow> js_value" where
  "get_property (JObject kvs) k = (case map_of kvs k of Some v \<Rightarrow> v | None \<Rightarrow> JUndefined)"
| "get_property _ k = JUndefined"

text \<open>A thrown \<open>Error\<close>: its message and the \<open>originalError\<close> attachment, when set.\<close>

datatype js_error = Error (message: js_string) (originalError: "js_string option")

section \<open>The platform\<close>

text \<open>
  What the browser provides and the repository only calls: the URL parser behind
  \<open>new URL(x)\<close>, \<open>JSON\<close>, \<open>TextDecoder\<close>, \<open>Number\<close> on non-numbers, AES-GCM of
  \<open>crypto.subtle\<close>, the number of arguments the engine lets \<open>apply\<close> pass, and the
  messages of the platform's own exceptions.
\<close>

record platform =
  url_parses :: "js_value \<Rightarrow> bool"
  JSON_parse :: "js_string \<Rightarrow> js_value option"
  JSON_stringify :: "js_value \<Rightarrow> js_string"
  TextDecoder_decode :: "bytes \<Rightarrow> js_string"
  to_number :: "js_value \<Rightarrow> js_number"
  aes_gcm_decrypt :: "bytes \<Rightarrow> bytes \<Rightarrow> bytes \<Rightarrow> js_string + bytes"
  aes_gcm_encrypt :: "bytes \<Rightarrow> bytes \<Rightarrow> bytes \<Rightarrow> bytes"
  max_apply_arguments :: nat
  InvalidCharacterError_message :: js_string
  DataError_message :: js_string
  RangeError_message :: js_string

text \<open>
  \<open>Number(v)\<close>: the identity on numbers, \<open>0\<close> for \<open>null\<close> and \<open>false\<close>, \<open>1\<close> for
  \<open>true\<close>, \<open>NaN\<close> for \<open>undefined\<close>; strings, arrays and objects go through the
  platform's conversion.
\<close>

fun Number :: "platform \<Rightarrow> js_value \<Rightarrow> js_number" where
  "Number P (JNumber n) = n"
| "Number P JNull = Finite 0"
| "Number P (JBool b) = (if b then Finite 1 else Finite 0)"
| "Number P JUndefined = NaN"
| "Number P v = to_number P v"

subsection \<open>TextEncoder\<close>

text \<open>
  \<open>new TextEncoder().encode(s)\<close>: UTF-8 of the UTF-16 string, a surrogate pair giving
  four bytes and a lone surrogate the three bytes of U+FFFD.
\<close>

definition is_high_surrogate :: "16 word \<Rightarrow> bool" where
  "is_high_surrogate c = (0xD800 \<le> c \<and> c \<le> 0xDBFF)"

definition is_low_surrogate :: "16 word \<Rightarrow> bool" where
  "is_low_surrogate c = (0xDC00 \<le> c \<and> c \<le> 0xDFFF)"

definition utf8_of_code_point :: "nat \<Rightarrow> bytes" where
  "utf8_of_code_point n =
     (if n < 0x80 then [of_nat n]
      else if n < 0x800 then [of_nat (0xC0 + n div 64), of_nat (0x80 + n mod 64)]
      else if n < 0x10000 then
        [of_nat (0xE0 + n div 4096), of_nat (0x80 + n div 64 mod 64), of_nat (0x80 + n mod 64)]
      else
        [of_nat (0xF0 + n div 262144), of_nat (0x80 + n div 4096 mod 64),
         of_nat (0x80 + n div 64 mod 64), of_nat (0x80 + n mod 64)])"

fun TextEncoder_encode :: "js_string \<Rightarrow> bytes" where
  "TextEncoder_encode [] = []"
| "TextEncoder_encode [c] =
     (if is_high_surrogate c \<or> is_low_surrogate c then utf8_of_code_point 0xFFFD
      else utf8_of_code_point (unat c))"
| "TextEncoder_encode (c # d # cs) =
     (if is_high_surrogate c \<and> is_low_surrogate d then
        utf8_of_code_point (0x10000 + (unat c - 0xD800) * 1024 + (unat d - 0xDC00))
        @ TextEncoder_encode cs
      else if is_high_surrogate c \<or> is_low_surrogate c then
        utf8_of_code_point 0xFFFD @ TextEncoder_encode (d # cs)
      else utf8_of_code_point (unat c) @ TextEncoder_encode (d # cs))"

subsection \<open>Base64: \<open>btoa\<close> and \<open>atob\<close>\<close>

text \<open>The base64 alphabet: \<open>A-Z\<close>, \<open>a-z\<close>, \<open>0-9\<close>, \<open>+\<close>, \<open>/\<close>.\<close>

definition b64_char :: "nat \<Rightarrow> 16 word" where
  "b64_char n =
     (if n < 26 then of_nat (65 + n)
      else if n < 52 then of_nat (71 + n)
      else if n < 62 then of_nat (n - 4)
      else if n = 62 then 0x2B
      else 0x2F)"

definition b64_value :: "16 word \<Rightarrow> nat option" where
  "b64_value c =
     (let n = unat c in
      if 65 \<le> n \<and> n \<le> 90 then Some (n - 65)
      else if 97 \<le> n \<and> n \<le> 122 then Some (n - 71)
      else if 48 \<le> n \<and> n \<le> 57 then Some (n + 4)
      else if n = 43 then Some 62
      else if n = 47 then Some 63
      else None)"

fun b64_encode :: "nat list \<Rightarrow> js_string" where
  "b64_encode (a # b # c # rest) =
     [b64_char (a div 4), b64_char (a mod 4 * 16 + b div 16),
      b64_char (b mod 16 * 4 + c div 64), b64_char (c mod 64)] @ b64_encode rest"
| "b64_encode [a, b] =
     [b64_char (a div 4), b64_char (a mod 4 * 16 + b div 16), b64_char (b mod 16 * 4), 0x3D]"
| "b64_encode [a] = [b64_char (a div 4), b64_char (a mod 4 * 16), 0x3D, 0x3D]"
| "b64_encode [] = []"

fun b64_decode :: "nat list \<Rightarrow> nat list" where
  "b64_decode (p # q # r # s # rest) =
     [p * 4 + q div 16, q mod 16 * 16 + r div 4, r mod 4 * 64 + s] @ b64_decode rest"
| "b64_decode [p, q, r] = [p * 4 + q div 16, q mod 16 * 16 + r div 4]"
| "b64_decode [p, q] = [p * 4 + q div 16]"
| "b64_decode [p] = []"
| "b64_decode [] = []"

text \<open>
  The six-bit groups that \<open>b64_encode\<close> writes as characters, and the number of \<open>=\<close> it
  appends: \<open>b64_encode bs\<close> is \<open>map b64_char (b64_sextets bs) @ replicate (b64_pad bs) 0x3D\<close>.
\<close>

fun b64_sextets :: "nat list \<Rightarrow> nat list" where
  "b64_sextets (a # b # c # rest) =
     [a div 4, a mod 4 * 16 + b div 16, b mod 16 * 4 + c div 64, c mod 64] @ b64_sextets rest"
| "b64_sextets [a, b] = [a div 4, a mod 4 * 16 + b div 16, b mod 16 * 4]"
| "b64_sextets [a] = [a div 4, a mod 4 * 16]"
| "b64_sextets [] = []"

fun b64_pad :: "nat list \<Rightarrow> nat" where
  "b64_pad (a # b # c # rest) = b64_pad rest"
| "b64_pad [a, b] = 1"
| "b64_pad [a] = 2"
| "b64_pad [] = 0"

text \<open>
  \<open>btoa(s)\<close>: base64 of a binary string; \<open>None\<close> is the \<open>InvalidCharacterError\<close> for a
  code unit above 255.
\<close>

definition btoa :: "js_string \<Rightarrow> js_string option" where
  "btoa s = (if \<forall>c \<in> set s. c \<le> 0xFF then Some (b64_encode (map unat s)) else None)"

text \<open>
  \<open>atob(s)\<close>, the forgiving base64 decoder of the HTML standard: ASCII whitespace is
  removed; when the length is then a multiple of four, one or two trailing \<open>=\<close> are removed;
  a length of 1 modulo 4 or any character outside the alphabet is an
  \<open>InvalidCharacterError\<close> (\<open>None\<close>); the bits left over after the last full byte are
  dropped. The result is a binary string.
\<close>

definition is_ascii_whitespace :: "16 word \<Rightarrow> bool" where
  "is_ascii_whitespace c = (c = 0x09 \<or> c = 0x0A \<or> c = 0x0C \<or> c = 0x0D \<or> c = 0x20)"

definition strip_padding :: "js_string \<Rightarrow> js_string" where
  "strip_padding d =
     (if length d mod 4 = 0 \<and> d \<noteq> [] \<and> last d = 0x3D then
        (if butlast d \<noteq> [] \<and> last (butlast d) = 0x3D then butlast (butlast d) else butlast d)
      else d)"

definition atob :: "js_string \<Rightarrow> js_string option" where
  "atob s =
     (let d = strip_padding (filter (\<lambda>c. \<not> is_ascii_whitespace c) s) in
      if length d mod 4 = 1 then None
      else (case those (map b64_value d) of
              None \<Rightarrow> None
            | Some vs \<Rightarrow> Some (map of_nat (b64_decode vs))))"

text \<open>
  \<open>String.fromCharCode.apply(null, bytes)\<close>: every byte is one argument of the call, and
  the engine throws a \<open>RangeError\<close> (\<open>None\<close>) when there are more than it can pass.
\<close>

definition fromCharCode :: "platform \<Rightarrow> bytes \<Rightarrow> js_string option" where
  "fromCharCode P bs =
     (if length bs \<le> max_apply_arguments P then Some (map ucast bs) else None)"

text \<open>The \<open>charCodeAt\<close> loop into a \<open>Uint8Array\<close>.\<close>

definition charCodes :: "js_string \<Rightarrow> bytes" where
  "charCodes s = map ucast s"

subsection \<open>\<open>crypto.subtle.importKey\<close>\<close>

text \<open>
  Importing a raw AES key: the Web Crypto rule accepts 128, 192 and 256 bits and rejects
  every other length with a \<open>DataError\<close>. The imported key stands for its bytes.
\<close>

definition crypto_subtle_importKey :: "platform \<Rightarrow> bytes \<Rightarrow> js_string + bytes" where
  "crypto_subtle_importKey P keyBytes =
     (if length keyBytes = 16 \<or> length keyBytes = 24 \<or> length keyBytes = 32
      then Inr keyBytes else Inl (DataError_message P))"

section \<open>DecryptionService\<close>

text \<open>
  The validated instruction set, as \<open>validateInstructionSet\<close> builds it: \<open>image_url\<close>,
  \<open>title\<close> and \<open>description\<close> are copied from the raw input as they are, the URLs are
  strings or \<open>null\<close>, the flags are booleans, the delay a number or \<open>null\<close>.
\<close>

record instruction_set =
  image_url :: js_value
  click_url :: "js_string option"
  deeplink_url :: "js_string option"
  auto_click :: bool
  deeplink_priority :: bool
  auto_click_delay :: "js_number option"
  title :: js_value
  description :: js_value

record decryption_service =
  encryptionKey :: js_string
  IV_LENGTH :: nat
  TAG_LENGTH :: nat

text \<open>
  The constructor reads \<open>window.ENV_CONFIG.decryption\<close>; \<open>x || d\<close> takes the default
  for an absent, empty or zero setting.
\<close>

record decryption_config =
  cfg_encryptionKey :: "js_string option"
  cfg_IV_LENGTH :: "nat option"
  cfg_TAG_LENGTH :: "nat option"

definition default_encryption_key :: js_string where
  "default_encryption_key = js ''default-encryption-key-32-chars!!''"

definition new_DecryptionService :: "decryption_config \<Rightarrow> decryption_service" where
  "new_DecryptionService cfg =
     \<lparr> encryptionKey =
         (case cfg_encryptionKey cfg of
            Some k \<Rightarrow> if k = [] then default_encryption_key else k
          | None \<Rightarrow> default_encryption_key),
       IV_LENGTH = (case cfg_IV_LENGTH cfg of Some n \<Rightarrow> if n = 0 then 12 else n | None \<Rightarrow> 12),
       TAG_LENGTH = (case cfg_TAG_LENGTH cfg of Some n \<Rightarrow> if n = 0 then 16 else n | None \<Rightarrow> 16) \<rparr>"

definition no_config :: decryption_config where
  "no_config = \<lparr> cfg_encryptionKey = None, cfg_IV_LENGTH = None, cfg_TAG_LENGTH = None \<rparr>"

text \<open>\<open>setEncryptionKey\<close>: any non-empty string is accepted.\<close>

definition setEncryptionKey :: "js_string \<Rightarrow> decryption_service \<Rightarrow> js_error + decryption_service" where
  "setEncryptionKey key svc =
     (if key = [] then Inl (Error (js ''Invalid encryption key provided'') None)
      else Inr (svc\<lparr>encryptionKey := key\<rparr>))"

definition validateDecryptionKey :: "decryption_service \<Rightarrow> bool" where
  "validateDecryptionKey svc = (encryptionKey svc \<noteq> [] \<and> length (encryptionKey svc) \<ge> 16)"

text \<open>
  The key material handed to \<open>crypto.subtle.importKey\<close>, the same expression in
  \<open>importKey\<close> and in \<open>encrypt\<close>:
  \<open>new TextEncoder().encode(keyString.padEnd(32, '0').substring(0, 32))\<close>.
\<close>

definition key_material :: "js_string \<Rightarrow> bytes" where
  "key_material keyString = TextEncoder_encode (substring0 32 (padEnd 32 0x30 keyString))"

text \<open>The calls made to \<open>crypto.subtle\<close>, in order, with their arguments.\<close>

datatype crypto_op =
    ImportKey bytes
  | AesGcmDecrypt bytes bytes bytes
  | AesGcmEncrypt bytes bytes bytes

definition importKey :: "platform \<Rightarrow> js_string \<Rightarrow> crypto_op list \<times> (js_error + bytes)" where
  "importKey P keyString =
     (let keyBytes = key_material keyString in
      ([ImportKey keyBytes],
       case crypto_subtle_importKey P keyBytes of
         Inl m \<Rightarrow> Inl (Error (js ''Failed to import encryption key: '' @ m) None)
       | Inr cryptoKey \<Rightarrow> Inr cryptoKey))"

definition isValidUrl :: "platform \<Rightarrow> js_value \<Rightarrow> bool" where
  "isValidUrl P url = url_parses P url"

definition validateInstructionSet :: "platform \<Rightarrow> js_value \<Rightarrow> js_error + instruction_set" where
  "validateInstructionSet P data =
     (if \<not> truthy data \<or> \<not> typeof_object data then
        Inl (Error (js ''Invalid instruction set - must be an object'') None)
      else if \<not> truthy (get_property data (js ''click_url''))
              \<or> \<not> typeof_string (get_property data (js ''click_url'')) then
        Inl (Error (js ''Invalid instruction set - click_url is required and must be a string'') None)
      else if truthy (get_property data (js ''image_url''))
              \<and> \<not> isValidUrl P (get_property data (js ''image_url'')) then
        Inl (Error (js ''Invalid instruction set - image_url must be a valid URL'') None)
      else
        (let instructionSet =
           \<lparr> image_url = get_property data (js ''image_url''),
             click_url =
               (case get_property data (js ''click_url'') of JString s \<Rightarrow> Some s | _ \<Rightarrow> None),
             deeplink_url =
               (case get_property data (js ''deeplink_url'') of
                  JString s \<Rightarrow> if s = [] then None else Some s
                | _ \<Rightarrow> None),
             auto_click = truthy (get_property data (js ''auto_click'')),
             deeplink_priority = truthy (get_property data (js ''deeplink_priority'')),
             auto_click_delay = None,
             title = get_property data (js ''title''),
             description = get_property data (js ''description'') \<rparr>
         in
         if \<not> isValidUrl P (get_property data (js ''click_url'')) then
           Inl (Error (js ''Invalid instruction set - click_url must be a valid URL'') None)
         else if truthy (get_property data (js ''deeplink_url''))
                 \<and> \<not> typeof_string (get_property data (js ''deeplink_url'')) then
           Inl (Error (js ''Invalid instruction set - deeplink_url must be a string'') None)
         else if get_property data (js ''auto_click_delay'') \<noteq> JUndefined then
           (let delay = Number P (get_property data (js ''auto_click_delay'')) in
            if isNaN delay \<or> lt_zero delay then
              Inl (Error (js ''Invalid instruction set - auto_click_delay must be a non-negative number'') None)
            else Inr (instructionSet\<lparr>auto_click_delay := Some delay\<rparr>))
         else Inr instructionSet))"

text \<open>
  \<open>parseInstructionSet\<close>: a \<open>SyntaxError\<close> of \<open>JSON.parse\<close> is replaced by the service's
  own error, every other error is thrown on.
\<close>

definition parseInstructionSet :: "platform \<Rightarrow> js_string \<Rightarrow> js_error + instruction_set" where
  "parseInstructionSet P decryptedText =
     (case JSON_parse P decryptedText of
        None \<Rightarrow> Inl (Error (js ''Invalid JSON format in decrypted payload'') None)
      | Some rawData \<Rightarrow> validateInstructionSet P rawData)"

text \<open>
  \<open>fixPayloadFormat\<close>: spaces to \<open>+\<close>, then \<open>=\<close> padding to a multiple of four, then the
  URL-safe characters to the standard ones.
\<close>

definition fixPayloadFormat :: "js_string \<Rightarrow> js_string" where
  "fixPayloadFormat payload =
     (if payload = [] then payload
      else
        (let fixed = replace_all 0x20 0x2B payload;
             paddingNeeded = length fixed mod 4;
             fixed = (if paddingNeeded > 0 then fixed @ replicate (4 - paddingNeeded) 0x3D
                      else fixed)
         in replace_all 0x5F 0x2F (replace_all 0x2D 0x2B fixed)))"

text \<open>
  \<open>base64ToArrayBuffer\<close>: spaces to \<open>+\<close>, then the URL-safe characters to the standard
  ones, then \<open>=\<close> padding, then \<open>atob\<close>. Every error raised inside, the empty-payload one
  included, is rethrown as \<open>Failed to decode base64 payload: ...\<close>.
\<close>

definition normalizeBase64 :: "js_string \<Rightarrow> js_string" where
  "normalizeBase64 base64 =
     (let normalizedBase64 = replace_all 0x20 0x2B base64;
          normalizedBase64 = replace_all 0x5F 0x2F (replace_all 0x2D 0x2B normalizedBase64);
          paddingNeeded = length normalizedBase64 mod 4
      in if paddingNeeded > 0 then normalizedBase64 @ replicate (4 - paddingNeeded) 0x3D
         else normalizedBase64)"

definition base64ToArrayBuffer :: "platform \<Rightarrow> js_string \<Rightarrow> js_error + bytes" where
  "base64ToArrayBuffer P base64 =
     (if base64 = [] then
        Inl (Error (js ''Failed to decode base64 payload: '' @ js ''Empty payload provided'') None)
      else
        (case atob (normalizeBase64 base64) of
           None \<Rightarrow> Inl (Error (js ''Failed to decode base64 payload: '' @ InvalidCharacterError_message P) None)
         | Some binaryString \<Rightarrow> Inr (charCodes binaryString)))"

text \<open>
  \<open>handleDecryptionError\<close> always throws: the generic error, keeping the message as
  \<open>originalError\<close>, when the message contains \<open>decrypt\<close> or \<open>key\<close>, the error itself
  otherwise. The value is the error thrown.
\<close>

definition handleDecryptionError :: "js_error \<Rightarrow> js_error" where
  "handleDecryptionError error =
     (if js_includes (message error) (js ''decrypt'') \<or> js_includes (message error) (js ''key'')
      then Error (js ''Failed to process encrypted payload'') (Some (message error))
      else error)"

text \<open>
  One pass of \<open>decrypt\<close> over a payload string: decode, check the length, split off the
  IV, import the key, decrypt, decode the text, parse and validate. The source has this
  block twice with the same text, in the \<open>try\<close> on the payload and in the \<open>catch\<close> on the
  fixed payload.
\<close>

definition decrypt_pass ::
  "platform \<Rightarrow> decryption_service \<Rightarrow> js_string \<Rightarrow> crypto_op list \<times> (js_error + instruction_set)" where
  "decrypt_pass P svc payload =
     (case base64ToArrayBuffer P payload of
        Inl e \<Rightarrow> ([], Inl e)
      | Inr encryptedData \<Rightarrow>
          if length encryptedData < IV_LENGTH svc + TAG_LENGTH svc + 1 then
            ([], Inl (Error (js ''Encrypted payload too short - possibly corrupted'') None))
          else
            (let iv = take (IV_LENGTH svc) encryptedData;
                 ciphertext = drop (IV_LENGTH svc) encryptedData
             in case importKey P (encryptionKey svc) of
                  (ops, Inl e) \<Rightarrow> (ops, Inl e)
                | (ops, Inr cryptoKey) \<Rightarrow>
                    (case aes_gcm_decrypt P cryptoKey iv ciphertext of
                       Inl m \<Rightarrow> (ops @ [AesGcmDecrypt cryptoKey iv ciphertext], Inl (Error m None))
                     | Inr decryptedBuffer \<Rightarrow>
                         (ops @ [AesGcmDecrypt cryptoKey iv ciphertext],
                          parseInstructionSet P (TextDecoder_decode P decryptedBuffer)))))"

text \<open>
  \<open>decrypt\<close>: the argument and key checks, the first pass, and on its failure a second
  pass on the fixed payload when fixing changed it; whatever error leaves the outer
  \<open>try\<close> goes through \<open>handleDecryptionError\<close>. The result carries the \<open>crypto.subtle\<close>
  calls made on the way.
\<close>

definition decrypt ::
  "platform \<Rightarrow> decryption_service \<Rightarrow> js_string \<Rightarrow> crypto_op list \<times> (js_error + instruction_set)" where
  "decrypt P svc encryptedPayload =
     (if encryptedPayload = [] then
        ([], Inl (handleDecryptionError (Error (js ''Invalid encrypted payload provided'') None)))
      else if \<not> validateDecryptionKey svc then
        ([], Inl (handleDecryptionError (Error (js ''Invalid or missing decryption key'') None)))
      else
        (case decrypt_pass P svc encryptedPayload of
           (ops, Inr instructionSet) \<Rightarrow> (ops, Inr instructionSet)
         | (ops, Inl decryptionError) \<Rightarrow>
             (let fixedPayload = fixPayloadFormat encryptedPayload in
              if fixedPayload \<noteq> encryptedPayload then
                (case decrypt_pass P svc fixedPayload of
                   (ops', Inr instructionSet) \<Rightarrow> (ops @ ops', Inr instructionSet)
                 | (ops', Inl retryError) \<Rightarrow> (ops @ ops', Inl (handleDecryptionError retryError)))
              else (ops, Inl (handleDecryptionError decryptionError)))))"

text \<open>
  \<open>encrypt\<close>, given the IV that \<open>crypto.getRandomValues\<close> produced: validate, serialise the
  caller's object, import the key, encrypt, prepend the IV, base64, and rewrite to the
  URL-safe alphabet without trailing padding. Every error is rethrown as
  \<open>Encryption failed: ...\<close>.
\<close>

definition strip_trailing_equals :: "js_string \<Rightarrow> js_string" where
  "strip_trailing_equals s = rev (dropWhile (\<lambda>c. c = 0x3D) (rev s))"

definition encrypt ::
  "platform \<Rightarrow> decryption_service \<Rightarrow> bytes \<Rightarrow> js_value \<Rightarrow> crypto_op list \<times> (js_error + js_string)" where
  "encrypt P svc iv instructionSet =
     (case validateInstructionSet P instructionSet of
        Inl e \<Rightarrow> ([], Inl (Error (js ''Encryption failed: '' @ message e) None))
      | Inr _ \<Rightarrow>
          (let jsonData = JSON_stringify P instructionSet;
               keyBytes = key_material (encryptionKey svc)
           in case crypto_subtle_importKey P keyBytes of
                Inl m \<Rightarrow> ([ImportKey keyBytes], Inl (Error (js ''Encryption failed: '' @ m) None))
              | Inr cryptoKey \<Rightarrow>
                  (let plaintext = TextEncoder_encode jsonData;
                       encryptedBuffer = aes_gcm_encrypt P cryptoKey iv plaintext;
                       combined = iv @ encryptedBuffer
                   in ([ImportKey keyBytes, AesGcmEncrypt cryptoKey iv plaintext],
                       case fromCharCode P combined of
                         None \<Rightarrow>
                           Inl (Error (js ''Encryption failed: '' @ RangeError_message P) None)
                       | Some binaryString \<Rightarrow>
                           (case btoa binaryString of
                              None \<Rightarrow>
                                Inl (Error (js ''Encryption failed: ''
                                            @ InvalidCharacterError_message P) None)
                            | Some base64 \<Rightarrow>
                                Inr (strip_trailing_equals
                                       (replace_all 0x2F 0x5F
                                          (replace_all 0x2B 0x2D base64))))))))"

text \<open>
  From the spec's data model, for the object handed to \<open>encrypt\<close>: the deeplink URL is
  null, absent or a non-empty string, the flags are booleans or absent, the delay is a
  number or absent. (That \<open>click_url\<close> is a string is part of validation.)
\<close>

fun url_field_typed :: "js_value \<Rightarrow> bool" where
  "url_field_typed JUndefined = True"
| "url_field_typed JNull = True"
| "url_field_typed (JString s) = (s \<noteq> [])"
| "url_field_typed _ = False"

fun flag_field_typed :: "js_value \<Rightarrow> bool" where
  "flag_field_typed JUndefined = True"
| "flag_field_typed (JBool b) = True"
| "flag_field_typed _ = False"

fun delay_field_typed :: "js_value \<Rightarrow> bool" where
  "delay_field_typed JUndefined = True"
| "delay_field_typed (JNumber n) = True"
| "delay_field_typed _ = False"

definition typed_instruction_set :: "js_value \<Rightarrow> bool" where
  "typed_instruction_set I =
     (url_field_typed (get_property I (js ''deeplink_url''))
      \<and> flag_field_typed (get_property I (js ''auto_click''))
      \<and> flag_field_typed (get_property I (js ''deeplink_priority''))
      \<and> delay_field_typed (get_property I (js ''auto_click_delay'')))"

text \<open>
  From the spec's words, \<open>equal to I field-for-field, after absent optional fields are
  default-filled to null/false\<close>: each field of the result is the field of \<open>I\<close>, an absent
  URL or delay counting as null and an absent flag as false.
\<close>

fun url_field_equal :: "js_value \<Rightarrow> js_string option \<Rightarrow> bool" where
  "url_field_equal JUndefined r = (r = None)"
| "url_field_equal JNull r = (r = None)"
| "url_field_equal (JString s) r = (r = Some s)"
| "url_field_equal _ r = False"

fun flag_field_equal :: "js_value \<Rightarrow> bool \<Rightarrow> bool" where
  "flag_field_equal JUndefined r = (r = False)"
| "flag_field_equal (JBool b) r = (r = b)"
| "flag_field_equal _ r = False"

fun delay_field_equal :: "js_value \<Rightarrow> js_number option \<Rightarrow> bool" where
  "delay_field_equal JUndefined r = (r = None)"
| "delay_field_equal JNull r = (r = None)"
| "delay_field_equal (JNumber n) r = (r = Some n)"
| "delay_field_equal _ r = False"

definition equal_field_for_field :: "js_value \<Rightarrow> instruction_set \<Rightarrow> bool" where
  "equal_field_for_field I R =
     (image_url R = get_property I (js ''image_url'')
      \<and> url_field_equal (get_property I (js ''click_url'')) (click_url R)
      \<and> url_field_equal (get_property I (js ''deeplink_url'')) (deeplink_url R)
      \<and> flag_field_equal (get_property I (js ''auto_click'')) (auto_click R)
      \<and> flag_field_equal (get_property I (js ''deeplink_priority'')) (deeplink_priority R)
      \<and> delay_field_equal (get_property I (js ''auto_click_delay'')) (auto_click_delay R)
      \<and> title R = get_property I (js ''title'')
      \<and> description R = get_property I (js ''description''))"

section \<open>ClickHandler\<close>

text \<open>
  The browser around the handler: how a deeplink attempt ends for a URL (the promise of
  \<open>attemptDeeplinkOpen\<close> resolves \<open>true\<close> or \<open>false\<close>; a rejection is what the handler's
  own \<open>catch\<close> provides for), the analytics collaborator \<open>window.firebaseService\<close>, which
  may be absent and whose calls may throw, and the two elements of the error display.
\<close>

datatype deeplink_result = Resolves bool | Rejects js_error

record firebase_service =
  trackClick_throws :: bool
  reportError_throws :: "js_error option"

record window =
  deeplink_outcome :: "js_string \<Rightarrow> deeplink_result"
  firebaseService :: "firebase_service option"
  has_error_message_element :: bool
  has_error_state_element :: bool

text \<open>What the handler does to the outside, in order.\<close>

datatype effect =
    AppendIframe js_string
  | SetLocationHref js_string
  | TrackClick js_string "js_string option" js_value
  | LogClickTracked js_string bool bool bool
  | ReportError js_error js_string
  | SetErrorMessageText js_string
  | ShowErrorState
  | ClearTimeout nat
  | SetTimeout nat js_number

record click_handler =
  instructionSet :: "instruction_set option"
  clickListenersSetup :: bool
  autoClickTimer :: "nat option"
  isProcessingClick :: bool

definition DEFAULT_AUTO_CLICK_DELAY :: js_number where
  "DEFAULT_AUTO_CLICK_DELAY = Finite 3000"

definition new_ClickHandler :: click_handler where
  "new_ClickHandler =
     \<lparr> instructionSet = None, clickListenersSetup = False, autoClickTimer = None,
       isProcessingClick = False \<rparr>"

text \<open>Truthiness of a \<open>string | null\<close> field: set and not empty.\<close>

fun is_set :: "js_string option \<Rightarrow> bool" where
  "is_set None = False"
| "is_set (Some s) = (s \<noteq> [])"

text \<open>
  \<open>openClickUrl\<close>: nothing for a missing or empty URL; otherwise the URL is parsed and
  assigned to \<open>window.location.href\<close>, and a parse failure is thrown as
  \<open>Invalid click URL: ...\<close>. The second component is the error thrown, if any.
\<close>

definition openClickUrl :: "platform \<Rightarrow> js_string option \<Rightarrow> effect list \<times> js_error option" where
  "openClickUrl P clickUrl =
     (case clickUrl of
        None \<Rightarrow> ([], None)
      | Some u \<Rightarrow>
          if u = [] then ([], None)
          else if url_parses P (JString u) then ([SetLocationHref u], None)
          else ([], Some (Error (js ''Invalid click URL: '' @ u) None)))"

text \<open>
  \<open>attemptDeeplinkOpen\<close>: \<open>false\<close> at once for a missing or empty URL; otherwise a
  hidden iframe is pointed at the URL and the promise settles as the browser decides.
\<close>

definition attemptDeeplinkOpen ::
  "window \<Rightarrow> js_string option \<Rightarrow> effect list \<times> (js_error + bool)" where
  "attemptDeeplinkOpen W deeplinkUrl =
     (case deeplinkUrl of
        None \<Rightarrow> ([], Inr False)
      | Some u \<Rightarrow>
          if u = [] then ([], Inr False)
          else ([AppendIframe u],
                case deeplink_outcome W u of Resolves b \<Rightarrow> Inr b | Rejects e \<Rightarrow> Inl e))"

text \<open>The \<open>catch\<close> block of \<open>attemptDeeplinkWithFallback\<close>.\<close>

definition fallback_after_error ::
  "platform \<Rightarrow> instruction_set \<Rightarrow> effect list \<times> js_error option" where
  "fallback_after_error P I =
     (if is_set (click_url I) then openClickUrl P (click_url I) else ([], None))"

definition attemptDeeplinkWithFallback ::
  "platform \<Rightarrow> window \<Rightarrow> instruction_set \<Rightarrow> effect list \<times> js_error option" where
  "attemptDeeplinkWithFallback P W I =
     (case attemptDeeplinkOpen W (deeplink_url I) of
        (es, Inl error) \<Rightarrow>
          (case fallback_after_error P I of (es', r) \<Rightarrow> (es @ es', r))
      | (es, Inr deeplinkSuccess) \<Rightarrow>
          if \<not> deeplinkSuccess then
            (if is_set (click_url I) then
               (case openClickUrl P (click_url I) of
                  (es', None) \<Rightarrow> (es @ es', None)
                | (es', Some error) \<Rightarrow>
                    (case fallback_after_error P I of (es'', r) \<Rightarrow> (es @ es' @ es'', r)))
             else (es, None))
          else (es, None))"

text \<open>
  \<open>trackClickAction\<close>: the call to the collaborator when it is present, then the log
  record of the action; an error thrown by the collaborator is caught and skips the record.
\<close>

definition trackClickAction :: "window \<Rightarrow> instruction_set \<Rightarrow> js_string \<Rightarrow> effect list" where
  "trackClickAction W I actionType =
     (let entry = LogClickTracked actionType (is_set (deeplink_url I)) (is_set (click_url I))
                     (deeplink_priority I)
      in case firebaseService W of
           None \<Rightarrow> [entry]
         | Some fb \<Rightarrow>
             (let targetUrl = (if deeplink_priority I \<and> is_set (deeplink_url I)
                               then deeplink_url I else click_url I);
                  isDeeplink = (if \<not> deeplink_priority I then JBool False
                                else (case deeplink_url I of None \<Rightarrow> JNull | Some d \<Rightarrow> JString d))
              in if trackClick_throws fb then [TrackClick actionType targetUrl isDeeplink]
                 else [TrackClick actionType targetUrl isDeeplink, entry]))"

definition showErrorMessage :: "window \<Rightarrow> js_string \<Rightarrow> effect list" where
  "showErrorMessage W msg =
     (if has_error_message_element W then
        SetErrorMessageText msg # (if has_error_state_element W then [ShowErrorState] else [])
      else [])"

text \<open>
  \<open>handleClickError\<close>: the report to the collaborator when it is present, then the
  message for the user; an error thrown by the collaborator is not caught here.
\<close>

definition handleClickError ::
  "window \<Rightarrow> js_error \<Rightarrow> js_string \<Rightarrow> effect list \<times> js_error option" where
  "handleClickError W error actionType =
     (let shown = showErrorMessage W (js ''Navigation failed. Please try again.'') in
      case firebaseService W of
        None \<Rightarrow> (shown, None)
      | Some fb \<Rightarrow>
          (case reportError_throws fb of
             Some thrown \<Rightarrow> ([ReportError error (js ''click_handler_'' @ actionType)], Some thrown)
           | None \<Rightarrow> (ReportError error (js ''click_handler_'' @ actionType) # shown, None)))"

text \<open>
  The routing decision inside the \<open>try\<close> of \<open>processClickAction\<close>, once a URL is known
  to be set: deeplink first with fallback, else the click URL, else the deeplink alone.
\<close>

definition route :: "platform \<Rightarrow> window \<Rightarrow> instruction_set \<Rightarrow> effect list \<times> js_error option" where
  "route P W I =
     (if deeplink_priority I \<and> is_set (deeplink_url I) then attemptDeeplinkWithFallback P W I
      else if is_set (click_url I) then openClickUrl P (click_url I)
      else if is_set (deeplink_url I) then
        (case attemptDeeplinkOpen W (deeplink_url I) of
           (es, Inl error) \<Rightarrow> (es, Some error)
         | (es, Inr success) \<Rightarrow> (es, None))
      else ([], None))"

text \<open>
  The \<open>try\<close> block of \<open>processClickAction\<close>: return at once when no URL is set; otherwise
  route and, when routing has not thrown, track the action.
\<close>

definition process_try ::
  "platform \<Rightarrow> window \<Rightarrow> instruction_set \<Rightarrow> js_string \<Rightarrow> effect list \<times> js_error option" where
  "process_try P W I actionType =
     (if \<not> is_set (click_url I) \<and> \<not> is_set (deeplink_url I) then ([], None)
      else
        (case route P W I of
           (es, Some error) \<Rightarrow> (es, Some error)
         | (es, None) \<Rightarrow> (es @ trackClickAction W I actionType, None)))"

text \<open>
  \<open>processClickAction\<close>: nothing without an instruction set; otherwise the guard is set,
  the \<open>try\<close> block runs, an error it throws goes to \<open>handleClickError\<close>, and \<open>finally\<close>
  clears the guard. The result is the handler afterwards, the effects, and the error that
  leaves the function, if any.
\<close>

definition processClickAction ::
  "platform \<Rightarrow> window \<Rightarrow> js_string \<Rightarrow> click_handler
     \<Rightarrow> click_handler \<times> effect list \<times> js_error option" where
  "processClickAction P W actionType h =
     (case instructionSet h of
        None \<Rightarrow> (h, [], None)
      | Some I \<Rightarrow>
          (let h1 = h\<lparr>isProcessingClick := True\<rparr>;
               (es, escaped) =
                 (case process_try P W I actionType of
                    (es, None) \<Rightarrow> (es, None)
                  | (es, Some error) \<Rightarrow>
                      (case handleClickError W error actionType of (es', r) \<Rightarrow> (es @ es', r)))
           in (h1\<lparr>isProcessingClick := False\<rparr>, es, escaped)))"

text \<open>\<open>handleClick\<close>: a click is ignored while another one is being processed.\<close>

definition handleClick ::
  "platform \<Rightarrow> window \<Rightarrow> click_handler \<Rightarrow> click_handler \<times> effect list \<times> js_error option" where
  "handleClick P W h =
     (if isProcessingClick h then (h, [], None)
      else processClickAction P W (js ''manual_click'') h)"

text \<open>
  \<open>scheduleAutoClick\<close>, given the handle \<open>setTimeout\<close> returns: nothing unless
  \<open>auto_click\<close> is on; a timer already held is cleared; the delay is
  \<open>auto_click_delay || DEFAULT_AUTO_CLICK_DELAY\<close>. \<open>None\<close> is the \<open>TypeError\<close> of reading
  a field of a null instruction set.
\<close>

definition auto_click_delay_or_default :: "instruction_set \<Rightarrow> js_number" where
  "auto_click_delay_or_default I =
     (case auto_click_delay I of
        None \<Rightarrow> DEFAULT_AUTO_CLICK_DELAY
      | Some n \<Rightarrow> if truthy (JNumber n) then n else DEFAULT_AUTO_CLICK_DELAY)"

definition scheduleAutoClick :: "nat \<Rightarrow> click_handler \<Rightarrow> (click_handler \<times> effect list) option" where
  "scheduleAutoClick handle h =
     (case instructionSet h of
        None \<Rightarrow> None
      | Some I \<Rightarrow>
          if \<not> auto_click I then Some (h, [])
          else
            (let cleared = (case autoClickTimer h of
                              None \<Rightarrow> []
                            | Some t \<Rightarrow> if t = 0 then [] else [ClearTimeout t]);
                 delay = auto_click_delay_or_default I
             in Some (h\<lparr>autoClickTimer := Some handle\<rparr>, cleared @ [SetTimeout handle delay])))"

text \<open>
  \<open>initialize\<close>, for an instruction set object: it is stored, the listeners are bound
  once, and the auto-click is scheduled when enabled.
\<close>

definition initialize :: "nat \<Rightarrow> instruction_set \<Rightarrow> click_handler \<Rightarrow> click_handler \<times> effect list" where
  "initialize handle I h =
     (let h1 = h\<lparr>instructionSet := Some I, clickListenersSetup := True\<rparr> in
      if auto_click I then
        (case scheduleAutoClick handle h1 of Some r \<Rightarrow> r | None \<Rightarrow> (h1, []))
      else (h1, []))"

text \<open>
  What a run of the handler shows: the URLs navigated to, the tracking of actions (calls to
  the collaborator's \<open>trackClick\<close> and records of an action), and the errors reported to
  the collaborator.
\<close>

definition navigations :: "effect list \<Rightarrow> js_string list" where
  "navigations es = concat (map (\<lambda>e. case e of SetLocationHref u \<Rightarrow> [u] | _ \<Rightarrow> []) es)"

fun is_tracking :: "effect \<Rightarrow> bool" where
  "is_tracking (TrackClick actionType target isDeeplink) = True"
| "is_tracking (LogClickTracked actionType has_deeplink has_click_url priority) = True"
| "is_tracking _ = False"

definition tracking_effects :: "effect list \<Rightarrow> effect list" where
  "tracking_effects es = filter is_tracking es"

fun is_error_report :: "effect \<Rightarrow> bool" where
  "is_error_report (ReportError error context) = True"
| "is_error_report _ = False"

definition error_reports :: "effect list \<Rightarrow> effect list" where
  "error_reports es = filter is_error_report es"

section \<open>A sample platform\<close>

text \<open>
  A small platform on which the definitions can be run: a URL parses when it contains
  \<open>://\<close>; JSON knows two documents; the text decoder reads each byte as one character;
  the cipher appends the first sixteen key bytes as its tag and checks them on decryption.
\<close>

definition quoted :: "js_string \<Rightarrow> js_string" where
  "quoted s = 0x22 # s @ [0x22]"

definition sample_raw :: js_value where
  "sample_raw = JObject [(js ''click_url'', JString (js ''https://x.test''))]"

definition sample_json :: js_string where
  "sample_json =
     js ''{'' @ quoted (js ''click_url'') @ js '':'' @ quoted (js ''https://x.test'') @ js ''}''"

definition null_delay_raw :: js_value where
  "null_delay_raw =
     JObject [(js ''click_url'', JString (js ''https://x.test'')),
              (js ''auto_click_delay'', JNull)]"

definition null_delay_json :: js_string where
  "null_delay_json =
     js ''{'' @ quoted (js ''click_url'') @ js '':'' @ quoted (js ''https://x.test'') @ js '',''
     @ quoted (js ''auto_click_delay'') @ js '':null}''"

definition sample_platform :: platform where
  "sample_platform =
     \<lparr> url_parses = (\<lambda>v. case v of JString s \<Rightarrow> js_includes s (js ''://'') | _ \<Rightarrow> False),
       JSON_parse =
         (\<lambda>s. if s = sample_json then Some sample_raw
              else if s = null_delay_json then Some null_delay_raw
              else None),
       JSON_stringify =
         (\<lambda>v. if v = sample_raw then sample_json
              else if v = null_delay_raw then null_delay_json
              else js ''null''),
       TextDecoder_decode = map ucast,
       to_number = (\<lambda>v. NaN),
       aes_gcm_decrypt =
         (\<lambda>key iv ct.
            if 16 \<le> length ct \<and> drop (length ct - 16) ct = take 16 key
            then Inr (take (length ct - 16) ct)
            else Inl (js ''The operation failed for an operation-specific reason'')),
       aes_gcm_encrypt = (\<lambda>key iv pt. pt @ take 16 key),
       max_apply_arguments = 65536,
       InvalidCharacterError_message = js ''The string to be decoded is not correctly encoded.'',
       DataError_message = js ''Invalid key length'',
       RangeError_message = js ''Maximum call stack size exceeded'' \<rparr>"

definition sample_window :: window where
  "sample_window =
     \<lparr> deeplink_outcome = (\<lambda>u. Resolves False),
       firebaseService = Some \<lparr> trackClick_throws = False, reportError_throws = None \<rparr>,
       has_error_message_element = True,
       has_error_state_element = True \<rparr>"

text \<open>
  Twelve IV bytes, the text \<open>{ invalid json }\<close> and the tag of the default key under the
  sample cipher, in base64 without padding.
\<close>

definition invalid_json_payload :: js_string where
  "invalid_json_payload = js ''BwcHBwcHBwcHBwcHeyBpbnZhbGlkIGpzb24gfWRlZmF1bHQtZW5jcnlwdGk''"

text \<open>A key with two accented letters, \<open>cl\<close>\<open>e\<close>\<open>-secr\<close>\<open>e\<close>\<open>te-0123456789\<close> with U+00E9 and U+00E8.\<close>

definition accented_key :: js_string where
  "accented_key = js ''cl'' @ [0xE9] @ js ''-secr'' @ [0xE8] @ js ''te-0123456789''"

text \<open>Instruction sets for the handler.\<close>

definition zero_delay_set :: instruction_set where
  "zero_delay_set =
     \<lparr> image_url = JUndefined, click_url = Some (js ''https://x.test''), deeplink_url = None,
       auto_click = True, deeplink_priority = False, auto_click_delay = Some (Finite 0),
       title = JUndefined, description = JUndefined \<rparr>"

definition deeplink_first_set :: instruction_set where
  "deeplink_first_set =
     \<lparr> image_url = JUndefined, click_url = Some (js ''https://x.test''),
       deeplink_url = Some (js ''myapp://open''),
       auto_click = False, deeplink_priority = True, auto_click_delay = None,
       title = JUndefined, description = JUndefined \<rparr>"

definition no_url_set :: instruction_set where
  "no_url_set =
     \<lparr> image_url = JString (js ''https://x.test/a.gif''), click_url = None, deeplink_url = None,
       auto_click = False, deeplink_priority = False, auto_click_delay = None,
       title = JUndefined, description = JUndefined \<rparr>"

definition unparsable_click_set :: instruction_set where
  "unparsable_click_set =
     \<lparr> image_url = JUndefined, click_url = Some (js ''not-a-url''), deeplink_url = None,
       auto_click = False, deeplink_priority = False, auto_click_delay = None,
       title = JUndefined, description = JUndefined \<rparr>"

definition handler_with :: "instruction_set \<Rightarrow> click_handler" where
  "handler_with I = new_ClickHandler\<lparr>instructionSet := Some I\<rparr>"

text \<open>
  A service whose key is \<open>short\<close> (five characters), and what \<open>encrypt\<close> returns under
  it on the sample platform for \<open>sample_raw\<close> with twelve IV bytes of value 7.
\<close>

definition short_key_service :: decryption_service where
  "short_key_service = (new_DecryptionService no_config)\<lparr>encryptionKey := js ''short''\<rparr>"

definition short_key_payload :: js_string where
  "short_key_payload =
     js ''BwcHBwcHBwcHBwcHeyJjbGlja191cmwiOiJodHRwczovL3gudGVzdCJ9c2hvcnQwMDAwMDAwMDAwMA''"

definition sample_validated :: instruction_set where
  "sample_validated =
     \<lparr> image_url = JUndefined, click_url = Some (js ''https://x.test''), deeplink_url = None,
       auto_click = False, deeplink_priority = False, auto_click_delay = None,
       title = JUndefined, description = JUndefined \<rparr>"

text \<open>
  The object \<open>{click_url: "https://x.test", auto_click_delay: null}\<close> (the generator
  script of the repository passes its delay as \<open>null\<close> in the same way): what \<open>encrypt\<close>
  returns for it under the default key with twelve IV bytes of value 7, and what
  \<open>decrypt\<close> makes of that.
\<close>

definition null_delay_payload :: js_string where
  "null_delay_payload =
     js ''BwcHBwcHBwcHBwcHeyJjbGlja191cmwiOiJodHRwczovL3gudGVzdCIsImF1dG9fY2xpY2tfZGVsYXkiOm51bGx9ZGVmYXVsdC1lbmNyeXB0aQ''"

definition null_delay_result :: instruction_set where
  "null_delay_result =
     \<lparr> image_url = JUndefined, click_url = Some (js ''https://x.test''), deeplink_url = None,
       auto_click = False, deeplink_priority = False, auto_click_delay = Some (Finite 0),
       title = JUndefined, description = JUndefined \<rparr>"

section \<open>Normalisation of the payload string\<close>

lemma replace_all_append: "replace_all a b (xs @ ys) = replace_all a b xs @ replace_all a b ys"
  by (simp add: replace_all_def)

lemma replace_all_replicate: "c \<noteq> a \<Longrightarrow> replace_all a b (replicate n c) = replicate n c"
  by (simp add: replace_all_def)

lemma length_replace_all: "length (replace_all a b s) = length s"
  by (simp add: replace_all_def)

lemma replace_all_absent: "a \<notin> set s \<Longrightarrow> replace_all a b s = s"
  by (induction s) (auto simp: replace_all_def)

text \<open>
  \<open>fixPayloadFormat\<close> pads before it rewrites the URL-safe characters and
  \<open>base64ToArrayBuffer\<close> pads after, but padding depends on the length alone and \<open>=\<close> is
  not rewritten, so both give the same string.
\<close>

lemma fixPayloadFormat_eq_normalizeBase64:
  "payload \<noteq> [] \<Longrightarrow> fixPayloadFormat payload = normalizeBase64 payload"
  by (simp add: fixPayloadFormat_def normalizeBase64_def Let_def replace_all_append
      replace_all_replicate length_replace_all)

lemma length_normalizeBase64: "length (normalizeBase64 s) mod 4 = 0"
  unfolding normalizeBase64_def Let_def
  by (simp add: length_replace_all) presburger

lemma normalizeBase64_chars:
  "0x20 \<notin> set (normalizeBase64 s) \<and> 0x2D \<notin> set (normalizeBase64 s)
   \<and> 0x5F \<notin> set (normalizeBase64 s)"
  unfolding normalizeBase64_def Let_def
  by (auto simp: replace_all_def)

lemma normalizeBase64_idem: "normalizeBase64 (normalizeBase64 s) = normalizeBase64 s"
proof -
  let ?n = "normalizeBase64 s"
  have "replace_all 0x5F 0x2F (replace_all 0x2D 0x2B (replace_all 0x20 0x2B ?n)) = ?n"
    using normalizeBase64_chars[of s] by (simp add: replace_all_absent)
  then show ?thesis
    using length_normalizeBase64[of s]
    by (simp add: normalizeBase64_def[of ?n] Let_def)
qed

lemma fixPayloadFormat_nonempty: "payload \<noteq> [] \<Longrightarrow> fixPayloadFormat payload \<noteq> []"
  by (simp add: fixPayloadFormat_def Let_def replace_all_def)

lemma base64ToArrayBuffer_fix:
  "payload \<noteq> [] \<Longrightarrow>
   base64ToArrayBuffer P (fixPayloadFormat payload) = base64ToArrayBuffer P payload"
  by (simp add: base64ToArrayBuffer_def fixPayloadFormat_nonempty)
     (simp add: fixPayloadFormat_eq_normalizeBase64 normalizeBase64_idem)

lemma decrypt_pass_fix:
  "payload \<noteq> [] \<Longrightarrow> decrypt_pass P svc (fixPayloadFormat payload) = decrypt_pass P svc payload"
  by (simp add: decrypt_pass_def base64ToArrayBuffer_fix)

section \<open>The outcome of \<open>decrypt\<close>\<close>

text \<open>A failing first pass decides the outcome of \<open>decrypt\<close>: the second pass repeats it.\<close>

lemma decrypt_of_failed_pass:
  assumes "payload \<noteq> []" and "validateDecryptionKey svc"
    and "decrypt_pass P svc payload = (ops, Inl e)"
  shows "decrypt P svc payload =
           (if fixPayloadFormat payload \<noteq> payload then ops @ ops else ops,
            Inl (handleDecryptionError e))"
  using assms by (simp add: decrypt_def Let_def decrypt_pass_fix)

lemma decrypt_of_successful_pass:
  assumes "payload \<noteq> []" and "validateDecryptionKey svc"
    and "decrypt_pass P svc payload = (ops, Inr r)"
  shows "decrypt P svc payload = (ops, Inr r)"
  using assms by (simp add: decrypt_def)

lemma base64ToArrayBuffer_nonempty: "base64ToArrayBuffer P payload = Inr d \<Longrightarrow> payload \<noteq> []"
  by (auto simp: base64ToArrayBuffer_def)

lemma handleDecryptionError_too_short:
  "handleDecryptionError (Error (js ''Encrypted payload too short - possibly corrupted'') None)
   = Error (js ''Encrypted payload too short - possibly corrupted'') None"
  by (simp add: handleDecryptionError_def js_def)

lemma handleDecryptionError_invalid_json:
  "handleDecryptionError (Error (js ''Invalid JSON format in decrypted payload'') None)
   = Error (js ''Failed to process encrypted payload'')
       (Some (js ''Invalid JSON format in decrypted payload''))"
  by (simp add: handleDecryptionError_def js_def)

lemma default_service:
  "encryptionKey (new_DecryptionService no_config) = default_encryption_key"
  "IV_LENGTH (new_DecryptionService no_config) = 12"
  "TAG_LENGTH (new_DecryptionService no_config) = 16"
  by (simp_all add: new_DecryptionService_def no_config_def)

lemma default_key_valid: "validateDecryptionKey (new_DecryptionService no_config)"
  by (simp add: validateDecryptionKey_def default_service default_encryption_key_def js_def)

lemma replicate_2: "replicate 2 x = [x, x]"
  by (simp add: numeral_2_eq_2)

lemma decode_test: "base64ToArrayBuffer P (js ''dGVzdA=='') = Inr [0x74, 0x65, 0x73, 0x74]"
  by (simp add: base64ToArrayBuffer_def js_def normalizeBase64_def replace_all_def atob_def
      is_ascii_whitespace_def strip_padding_def b64_value_def charCodes_def Let_def)

lemma decode_test_unpadded: "base64ToArrayBuffer P (js ''dGVzdA'') = Inr [0x74, 0x65, 0x73, 0x74]"
  by (simp add: base64ToArrayBuffer_def js_def normalizeBase64_def replace_all_def atob_def
      is_ascii_whitespace_def strip_padding_def b64_value_def charCodes_def Let_def
      replicate_2)

text \<open>
  C6. When the key passes \<open>validateDecryptionKey\<close> and the payload decodes to fewer than
  \<open>IV_LENGTH + TAG_LENGTH + 1\<close> bytes (29 with the default lengths), \<open>decrypt\<close> fails
  with \<open>Encrypted payload too short - possibly corrupted\<close>, passed through
  \<open>handleDecryptionError\<close> unchanged, and the list of \<open>crypto.subtle\<close> calls is empty: no
  key import and no AEAD decryption, in the first pass or in the retry.
\<close>

theorem decrypt_short_envelope:
  assumes "validateDecryptionKey svc"
    and "base64ToArrayBuffer P payload = Inr encryptedData"
    and "length encryptedData < IV_LENGTH svc + TAG_LENGTH svc + 1"
  shows "decrypt P svc payload =
           ([], Inl (Error (js ''Encrypted payload too short - possibly corrupted'') None))"
proof -
  have ne: "payload \<noteq> []"
    using assms(2) by (rule base64ToArrayBuffer_nonempty)
  have "decrypt_pass P svc payload =
          ([], Inl (Error (js ''Encrypted payload too short - possibly corrupted'') None))"
    using assms(2,3) by (simp add: decrypt_pass_def)
  from decrypt_of_failed_pass[OF ne assms(1) this] show ?thesis
    by (simp add: handleDecryptionError_too_short)
qed

text \<open>The payload \<open>dGVzdA==\<close> of the test suite (\<open>test\<close>, four bytes), default service.\<close>

theorem decrypt_short_envelope_witness:
  "decrypt sample_platform (new_DecryptionService no_config) (js ''dGVzdA=='') =
     ([], Inl (Error (js ''Encrypted payload too short - possibly corrupted'') None))"
  by (rule decrypt_short_envelope[OF default_key_valid decode_test])
     (simp add: default_service)

text \<open>
  C5. When the first pass over the payload fails, fixing the payload changes it, and the
  pass over the fixed payload fails too, the error \<open>decrypt\<close> throws is the first pass's
  error (after \<open>handleDecryptionError\<close>). The \<open>catch\<close> block rethrows what the second pass
  threw, and that is the same error: the fixed payload normalises to the same base64
  string, so the second pass repeats the first.
\<close>

theorem decrypt_retry_failure_is_first_failure:
  assumes "encryptedPayload \<noteq> []" and "validateDecryptionKey svc"
    and "decrypt_pass P svc encryptedPayload = (ops, Inl decryptionError)"
    and "fixPayloadFormat encryptedPayload \<noteq> encryptedPayload"
    and "decrypt_pass P svc (fixPayloadFormat encryptedPayload) = (ops', Inl retryError)"
  shows "snd (decrypt P svc encryptedPayload) = Inl (handleDecryptionError decryptionError)
         \<and> retryError = decryptionError"
proof -
  have "decrypt_pass P svc (fixPayloadFormat encryptedPayload) = (ops, Inl decryptionError)"
    using assms(1,3) by (simp add: decrypt_pass_fix)
  with assms(5) have "retryError = decryptionError" by simp
  moreover have "snd (decrypt P svc encryptedPayload) = Inl (handleDecryptionError decryptionError)"
    using decrypt_of_failed_pass[OF assms(1,2,3)] by simp
  ultimately show ?thesis by simp
qed

text \<open>The unpadded payload \<open>dGVzdA\<close>: fixing appends \<open>==\<close>, and both passes find four bytes.\<close>

theorem decrypt_retry_failure_is_first_failure_witness:
  "snd (decrypt sample_platform (new_DecryptionService no_config) (js ''dGVzdA'')) =
     Inl (Error (js ''Encrypted payload too short - possibly corrupted'') None)"
proof -
  let ?svc = "new_DecryptionService no_config"
  let ?e = "Error (js ''Encrypted payload too short - possibly corrupted'') None"
  have ne: "js ''dGVzdA'' \<noteq> []"
    by (simp add: js_def)
  have first: "decrypt_pass sample_platform ?svc (js ''dGVzdA'') = ([], Inl ?e)"
    by (simp add: decrypt_pass_def decode_test_unpadded default_service)
  have changed: "fixPayloadFormat (js ''dGVzdA'') \<noteq> js ''dGVzdA''"
    by (simp add: fixPayloadFormat_def js_def replace_all_def Let_def)
  have retry: "decrypt_pass sample_platform ?svc (fixPayloadFormat (js ''dGVzdA'')) = ([], Inl ?e)"
    using first ne by (simp add: decrypt_pass_fix)
  from decrypt_retry_failure_is_first_failure[OF ne default_key_valid first changed retry]
  show ?thesis
    by (simp add: handleDecryptionError_too_short)
qed

text \<open>
  C4. A payload that decodes, is long enough and decrypts, but whose text \<open>JSON.parse\<close>
  rejects: \<open>parseInstructionSet\<close> throws \<open>Invalid JSON format in decrypted payload\<close>, and
  since that message contains \<open>decrypt\<close>, \<open>handleDecryptionError\<close> replaces it:
  \<open>decrypt\<close> throws \<open>Failed to process encrypted payload\<close>, the JSON message kept only
  as \<open>originalError\<close>.
\<close>

theorem decrypt_invalid_json_is_sanitized:
  assumes "validateDecryptionKey svc"
    and "base64ToArrayBuffer P payload = Inr encryptedData"
    and "IV_LENGTH svc + TAG_LENGTH svc + 1 \<le> length encryptedData"
    and "crypto_subtle_importKey P (key_material (encryptionKey svc)) = Inr cryptoKey"
    and "aes_gcm_decrypt P cryptoKey (take (IV_LENGTH svc) encryptedData)
           (drop (IV_LENGTH svc) encryptedData) = Inr decryptedBuffer"
    and "JSON_parse P (TextDecoder_decode P decryptedBuffer) = None"
  shows "snd (decrypt P svc payload) =
           Inl (Error (js ''Failed to process encrypted payload'')
                  (Some (js ''Invalid JSON format in decrypted payload'')))"
proof -
  have ne: "payload \<noteq> []"
    using assms(2) by (rule base64ToArrayBuffer_nonempty)
  have "snd (decrypt_pass P svc payload) =
          Inl (Error (js ''Invalid JSON format in decrypted payload'') None)"
    using assms(2-6)
    by (simp add: decrypt_pass_def importKey_def Let_def parseInstructionSet_def)
  then obtain ops where
    "decrypt_pass P svc payload =
       (ops, Inl (Error (js ''Invalid JSON format in decrypted payload'') None))"
    by (cases "decrypt_pass P svc payload") simp
  from decrypt_of_failed_pass[OF ne assms(1) this] show ?thesis
    by (simp add: handleDecryptionError_invalid_json)
qed

lemma sample_platform_fields:
  "TextDecoder_decode sample_platform = map ucast"
  "aes_gcm_encrypt sample_platform key iv pt = pt @ take 16 key"
  "DataError_message sample_platform = js ''Invalid key length''"
  "max_apply_arguments sample_platform = 65536"
  by (simp_all add: sample_platform_def)

lemma sample_cipher_opens:
  "16 \<le> length key \<Longrightarrow>
   aes_gcm_decrypt sample_platform key iv (pt @ take 16 key) = Inr pt"
  by (simp add: sample_platform_def)

lemma invalid_json_payload_decodes:
  "base64ToArrayBuffer P invalid_json_payload =
     Inr (replicate 12 7 @ TextEncoder_encode (js ''{ invalid json }'')
          @ take 16 (key_material default_encryption_key))"
  by code_simp

lemma default_key_material: "length (key_material default_encryption_key) = 32"
  by code_simp

lemma default_key_imports:
  "crypto_subtle_importKey P (key_material default_encryption_key) =
     Inr (key_material default_encryption_key)"
  by (simp add: crypto_subtle_importKey_def default_key_material)

lemma invalid_json_payload_decrypts:
  "aes_gcm_decrypt sample_platform (key_material default_encryption_key)
     (take 12 (replicate 12 7 @ TextEncoder_encode (js ''{ invalid json }'')
               @ take 16 (key_material default_encryption_key)))
     (drop 12 (replicate 12 7 @ TextEncoder_encode (js ''{ invalid json }'')
               @ take 16 (key_material default_encryption_key)))
   = Inr (TextEncoder_encode (js ''{ invalid json }''))"
  by (simp add: sample_cipher_opens default_key_material)

lemma invalid_json_text:
  "map ucast (TextEncoder_encode (js ''{ invalid json }'')) = js ''{ invalid json }''"
  by code_simp

lemma invalid_json_rejected:
  "JSON_parse sample_platform
     (TextDecoder_decode sample_platform (TextEncoder_encode (js ''{ invalid json }''))) = None"
  by (simp add: sample_platform_fields invalid_json_text)
     (simp add: sample_platform_def sample_json_def null_delay_json_def quoted_def js_def)

theorem decrypt_invalid_json_is_sanitized_witness:
  "snd (decrypt sample_platform (new_DecryptionService no_config) invalid_json_payload) =
     Inl (Error (js ''Failed to process encrypted payload'')
            (Some (js ''Invalid JSON format in decrypted payload'')))"
proof (rule decrypt_invalid_json_is_sanitized[OF default_key_valid invalid_json_payload_decodes])
  show "IV_LENGTH (new_DecryptionService no_config) + TAG_LENGTH (new_DecryptionService no_config) + 1
        \<le> length (replicate 12 7 @ TextEncoder_encode (js ''{ invalid json }'')
                   @ take 16 (key_material default_encryption_key))"
    by code_simp
  show "crypto_subtle_importKey sample_platform
          (key_material (encryptionKey (new_DecryptionService no_config))) =
        Inr (key_material default_encryption_key)"
    by (simp add: default_service default_key_imports)
  show "aes_gcm_decrypt sample_platform (key_material default_encryption_key)
          (take (IV_LENGTH (new_DecryptionService no_config))
             (replicate 12 7 @ TextEncoder_encode (js ''{ invalid json }'')
              @ take 16 (key_material default_encryption_key)))
          (drop (IV_LENGTH (new_DecryptionService no_config))
             (replicate 12 7 @ TextEncoder_encode (js ''{ invalid json }'')
              @ take 16 (key_material default_encryption_key)))
        = Inr (TextEncoder_encode (js ''{ invalid json }''))"
    by (simp only: default_service invalid_json_payload_decrypts)
  show "JSON_parse sample_platform
          (TextDecoder_decode sample_platform (TextEncoder_encode (js ''{ invalid json }''))) = None"
    by (rule invalid_json_rejected)
qed

section \<open>Validation\<close>

lemma instruction_set_keys:
  "js ''click_url'' \<noteq> js ''image_url''" "js ''click_url'' \<noteq> js ''deeplink_url''"
  "js ''click_url'' \<noteq> js ''auto_click''" "js ''click_url'' \<noteq> js ''deeplink_priority''"
  "js ''click_url'' \<noteq> js ''auto_click_delay''" "js ''click_url'' \<noteq> js ''title''"
  "js ''click_url'' \<noteq> js ''description''"
  by (simp_all add: js_def)

lemma sample_url_parses: "isValidUrl sample_platform (JString (js ''https://x.test''))"
  by (simp add: isValidUrl_def sample_platform_def js_def)

lemma validated_fields:
  assumes "validateInstructionSet P raw = Inr I"
  shows "\<exists>c. click_url I = Some c \<and> c \<noteq> [] \<and> url_parses P (JString c)"
    and "deeplink_url I \<noteq> Some []"
proof -
  obtain s where s: "get_property raw (js ''click_url'') = JString s" "s \<noteq> []"
    using assms
    by (cases "get_property raw (js ''click_url'')")
       (auto simp: validateInstructionSet_def split: if_splits)
  have valid: "isValidUrl P (JString s)"
    using assms s by (auto simp: validateInstructionSet_def Let_def split: if_splits)
  have "click_url I = Some s"
    using assms s by (auto simp: validateInstructionSet_def Let_def split: if_splits)
  with s valid show "\<exists>c. click_url I = Some c \<and> c \<noteq> [] \<and> url_parses P (JString c)"
    by (simp add: isValidUrl_def)
  show "deeplink_url I \<noteq> Some []"
    using assms
    by (auto simp: validateInstructionSet_def Let_def split: if_splits js_value.splits)
qed

text \<open>
  C3. \<open>validateInstructionSet\<close> fails for every raw input whose \<open>click_url\<close> is absent
  (\<open>undefined\<close>) or not a string: with \<open>must be an object\<close> when the input is not a
  non-null object, with \<open>click_url is required and must be a string\<close> otherwise. And an
  object holding only a non-empty \<open>click_url\<close> that the URL parser accepts is validated,
  \<open>image_url\<close> staying \<open>undefined\<close> and the other fields taking their defaults.
\<close>

theorem validateInstructionSet_click_url_required:
  "((get_property data (js ''click_url'') = JUndefined
      \<or> \<not> typeof_string (get_property data (js ''click_url'')))
     \<longrightarrow> validateInstructionSet P data
           = Inl (Error
                   (if truthy data \<and> typeof_object data
                    then js ''Invalid instruction set - click_url is required and must be a string''
                    else js ''Invalid instruction set - must be an object'') None))
   \<and> (u \<noteq> [] \<and> isValidUrl P (JString u)
     \<longrightarrow> validateInstructionSet P (JObject [(js ''click_url'', JString u)])
           = Inr \<lparr> image_url = JUndefined, click_url = Some u, deeplink_url = None,
                   auto_click = False, deeplink_priority = False, auto_click_delay = None,
                   title = JUndefined, description = JUndefined \<rparr>)"
proof (intro conjI impI)
  assume "get_property data (js ''click_url'') = JUndefined
          \<or> \<not> typeof_string (get_property data (js ''click_url''))"
  then have "\<not> truthy (get_property data (js ''click_url''))
             \<or> \<not> typeof_string (get_property data (js ''click_url''))"
    by auto
  then show "validateInstructionSet P data
           = Inl (Error
                   (if truthy data \<and> typeof_object data
                    then js ''Invalid instruction set - click_url is required and must be a string''
                    else js ''Invalid instruction set - must be an object'') None)"
    by (simp add: validateInstructionSet_def)
next
  assume "u \<noteq> [] \<and> isValidUrl P (JString u)"
  then show "validateInstructionSet P (JObject [(js ''click_url'', JString u)])
           = Inr \<lparr> image_url = JUndefined, click_url = Some u, deeplink_url = None,
                   auto_click = False, deeplink_priority = False, auto_click_delay = None,
                   title = JUndefined, description = JUndefined \<rparr>"
    using instruction_set_keys
    by (simp add: validateInstructionSet_def Let_def)
qed

text \<open>
  An object with only \<open>image_url\<close> and one whose \<open>click_url\<close> is the number 5 are
  rejected; \<open>{click_url: "https://x.test"}\<close> is accepted.
\<close>

theorem validateInstructionSet_click_url_required_witness:
  "validateInstructionSet sample_platform (JObject [(js ''image_url'', JString (js ''https://x.test''))])
     = Inl (Error (js ''Invalid instruction set - click_url is required and must be a string'') None)
   \<and> validateInstructionSet sample_platform
       (JObject [(js ''click_url'', JNumber (Finite 5))])
     = Inl (Error (js ''Invalid instruction set - click_url is required and must be a string'') None)
   \<and> validateInstructionSet sample_platform sample_raw
     = Inr \<lparr> image_url = JUndefined, click_url = Some (js ''https://x.test''), deeplink_url = None,
             auto_click = False, deeplink_priority = False, auto_click_delay = None,
             title = JUndefined, description = JUndefined \<rparr>"
proof -
  let ?only_image = "JObject [(js ''image_url'', JString (js ''https://x.test''))]"
  let ?number = "JObject [(js ''click_url'', JNumber (Finite 5))]"
  have a: "get_property ?only_image (js ''click_url'') = JUndefined"
    using instruction_set_keys by simp
  have b: "\<not> typeof_string (get_property ?number (js ''click_url''))"
    by simp
  have c: "js ''https://x.test'' \<noteq> []"
    by (simp add: js_def)
  from validateInstructionSet_click_url_required[of ?only_image sample_platform "js ''https://x.test''"]
    validateInstructionSet_click_url_required[of ?number sample_platform "js ''https://x.test''"]
    a b c sample_url_parses
  show ?thesis
    unfolding sample_raw_def by simp
qed

section \<open>Key material\<close>

lemma length_utf8_of_code_point:
  "1 \<le> length (utf8_of_code_point n)"
  "length (utf8_of_code_point n) = 1 \<longleftrightarrow> n < 0x80"
  by (simp_all add: utf8_of_code_point_def)

lemma surrogate_not_ascii:
  "is_high_surrogate c \<Longrightarrow> \<not> c < 0x80" "is_low_surrogate c \<Longrightarrow> \<not> c < 0x80"
  by (simp_all add: is_high_surrogate_def is_low_surrogate_def word_less_nat_alt word_le_nat_alt)

lemma ascii_unat: "(c :: 16 word) < 0x80 \<longleftrightarrow> unat c < 0x80"
  by (simp add: word_less_nat_alt)

lemma length_TextEncoder_encode:
  "length s \<le> length (TextEncoder_encode s)
   \<and> (length (TextEncoder_encode s) = length s \<longleftrightarrow> (\<forall>c \<in> set s. c < 0x80))"
proof (induction s rule: TextEncoder_encode.induct)
  case 1
  show ?case by simp
next
  case (2 c)
  show ?case
    using length_utf8_of_code_point[of "unat c"] length_utf8_of_code_point[of "0xFFFD"]
      surrogate_not_ascii[of c]
    by (auto simp: ascii_unat)
next
  case (3 c d cs)
  show ?case
  proof (cases "is_high_surrogate c \<and> is_low_surrogate d")
    case True
    have "length (utf8_of_code_point (0x10000 + (unat c - 0xD800) * 1024 + (unat d - 0xDC00))) = 4"
      by (simp add: utf8_of_code_point_def)
    with True 3(1) surrogate_not_ascii(1)[of c] show ?thesis
      by auto
  next
    case False
    note nopair = this
    show ?thesis
    proof (cases "is_high_surrogate c \<or> is_low_surrogate c")
      case True
      have "length (utf8_of_code_point 0xFFFD) = 3"
        by (simp add: utf8_of_code_point_def)
      with True nopair 3(2) surrogate_not_ascii[of c] show ?thesis
        by auto
    next
      case False
      with nopair 3(3) length_utf8_of_code_point[of "unat c"] show ?thesis
        by (auto simp: ascii_unat)
    qed
  qed
qed

lemma TextEncoder_encode_ascii:
  "\<forall>c \<in> set s. c < 0x80 \<Longrightarrow> TextEncoder_encode s = map ucast s"
proof (induction s rule: TextEncoder_encode.induct)
  case 1
  show ?case by simp
next
  case (2 c)
  then show ?case
    using surrogate_not_ascii[of c]
    by (auto simp: utf8_of_code_point_def ascii_unat)
next
  case (3 c d cs)
  then show ?case
    using surrogate_not_ascii[of c]
    by (auto simp: utf8_of_code_point_def ascii_unat)
qed

lemma length_padded_key: "length (substring0 32 (padEnd 32 c keyString)) = 32"
  by (simp add: substring0_def padEnd_def)

lemma ascii_padded_key:
  "(\<forall>c \<in> set (substring0 32 (padEnd 32 0x30 keyString)). c < 0x80)
   \<longleftrightarrow> (\<forall>c \<in> set (take 32 keyString). c < 0x80)"
  by (auto simp: substring0_def padEnd_def dest: in_set_takeD)

lemma key_material_ascii:
  assumes "\<forall>c \<in> set (take 32 keyString). c < 0x80"
  shows "key_material keyString = map ucast (take 32 (keyString @ replicate (32 - length keyString) 0x30))"
    and "length (key_material keyString) = 32"
proof -
  have "\<forall>c \<in> set (substring0 32 (padEnd 32 0x30 keyString)). c < 0x80"
    using assms by (simp only: ascii_padded_key)
  then have "key_material keyString = map ucast (substring0 32 (padEnd 32 0x30 keyString))"
    unfolding key_material_def by (rule TextEncoder_encode_ascii)
  then show "key_material keyString = map ucast (take 32 (keyString @ replicate (32 - length keyString) 0x30))"
    by (simp add: substring0_def padEnd_def)
  then show "length (key_material keyString) = 32"
    by simp
qed

lemma accented_key_not_ascii: "\<not> (\<forall>c \<in> set (take 32 accented_key). c < 0x80)"
  by (simp add: accented_key_def js_def)

lemma accented_key_material: "length (key_material accented_key) = 34"
  by code_simp

lemma accented_key_import:
  "importKey sample_platform accented_key =
     ([ImportKey (key_material accented_key)],
      Inl (Error (js ''Failed to import encryption key: Invalid key length'') None))"
  by (simp add: importKey_def crypto_subtle_importKey_def accented_key_material
      sample_platform_fields Let_def)
     (simp add: js_def)

text \<open>
  C7. The key material has 32 bytes exactly when the first 32 characters of the key are
  ASCII; it is longer otherwise, because the key is padded and cut to 32 UTF-16 code units
  and only then encoded as UTF-8. (For an ASCII key it is the key padded with \<open>0\<close> and cut
  to 32 bytes: \<open>key_material_ascii\<close>.)
\<close>

theorem key_material_length:
  "32 \<le> length (key_material keyString)
   \<and> (length (key_material keyString) = 32 \<longleftrightarrow> (\<forall>c \<in> set (take 32 keyString). c < 0x80))"
  using length_TextEncoder_encode[of "substring0 32 (padEnd 32 0x30 keyString)"]
  by (simp add: key_material_def length_padded_key ascii_padded_key)

text \<open>
  The key \<open>accented_key\<close> has 22 characters, passes the length check of
  \<open>validateDecryptionKey\<close>, and gives 34 bytes, which \<open>crypto.subtle.importKey\<close> rejects.
\<close>

theorem key_material_length_witness:
  "length accented_key = 22
   \<and> length (key_material accented_key) \<noteq> 32
   \<and> snd (importKey sample_platform accented_key) =
       Inl (Error (js ''Failed to import encryption key: Invalid key length'') None)"
  using key_material_length[of accented_key] accented_key_not_ascii accented_key_import
  by (simp add: accented_key_def js_def)

section \<open>Click routing\<close>

lemma navigations_append: "navigations (xs @ ys) = navigations xs @ navigations ys"
  by (simp add: navigations_def)

lemma navigations_trackClickAction: "navigations (trackClickAction W I a) = []"
  by (simp add: trackClickAction_def navigations_def Let_def split: option.splits)

lemma navigations_handleClickError: "navigations (fst (handleClickError W e a)) = []"
  by (simp add: handleClickError_def showErrorMessage_def navigations_def Let_def
      split: option.splits)

lemma deeplink_first_routing:
  assumes "deeplink_priority I" and "deeplink_url I = Some d" and "d \<noteq> []"
    and "click_url I = Some c" and "c \<noteq> []" and "url_parses P (JString c)"
  shows "route P W I =
           (if deeplink_outcome W d = Resolves True then ([AppendIframe d], None)
            else ([AppendIframe d, SetLocationHref c], None))"
  using assms
  by (cases "deeplink_outcome W d")
     (simp_all add: route_def attemptDeeplinkWithFallback_def attemptDeeplinkOpen_def
        openClickUrl_def fallback_after_error_def)

lemma deeplink_first_set_validated:
  "validateInstructionSet sample_platform
     (JObject [(js ''click_url'', JString (js ''https://x.test'')),
               (js ''deeplink_url'', JString (js ''myapp://open'')),
               (js ''deeplink_priority'', JBool True)]) = Inr deeplink_first_set"
  by (simp add: validateInstructionSet_def deeplink_first_set_def Let_def js_def isValidUrl_def
      sample_platform_def)

lemma scheduleAutoClick_delay:
  assumes "instructionSet h = Some I" and "auto_click I"
  shows "scheduleAutoClick handle h =
           Some (h\<lparr>autoClickTimer := Some handle\<rparr>,
                 (case autoClickTimer h of
                    None \<Rightarrow> []
                  | Some t \<Rightarrow> if t = 0 then [] else [ClearTimeout t])
                 @ [SetTimeout handle
                   (case auto_click_delay I of
                      None \<Rightarrow> Finite 3000
                    | Some n \<Rightarrow> if n = Finite 0 \<or> n = NaN then Finite 3000 else n)])"
  using assms
  by (auto simp add: scheduleAutoClick_def auto_click_delay_or_default_def
      DEFAULT_AUTO_CLICK_DELAY_def Let_def split: option.splits)

lemma zero_delay_set_validated:
  "validateInstructionSet sample_platform
     (JObject [(js ''click_url'', JString (js ''https://x.test'')),
               (js ''auto_click'', JBool True),
               (js ''auto_click_delay'', JNumber (Finite 0))]) = Inr zero_delay_set"
  by (simp add: validateInstructionSet_def zero_delay_set_def Let_def js_def isValidUrl_def
      sample_platform_def isNaN_def)

text \<open>
  C2. For a validated instruction set with \<open>deeplink_priority\<close> on and a deeplink URL
  (validation makes \<open>click_url\<close> a non-empty URL that parses), \<open>processClickAction\<close>
  navigates exactly once, to \<open>click_url\<close>, when the deeplink attempt resolves \<open>false\<close> or
  rejects, and does not navigate at all when it resolves \<open>true\<close>.
\<close>

theorem deeplink_priority_fallback:
  assumes "validateInstructionSet P raw = Inr I" and "instructionSet h = Some I"
    and "deeplink_priority I" and "deeplink_url I = Some d" and "click_url I = Some c"
  shows "navigations (fst (snd (processClickAction P W actionType h))) =
           (if deeplink_outcome W d = Resolves True then [] else [c])"
proof -
  from validated_fields[OF assms(1)] assms(4,5)
  have "d \<noteq> []" and "c \<noteq> []" and "url_parses P (JString c)"
    by auto
  from deeplink_first_routing[OF assms(3,4) this(1) assms(5) this(2,3)]
  have r: "route P W I =
           (if deeplink_outcome W d = Resolves True then ([AppendIframe d], None)
            else ([AppendIframe d, SetLocationHref c], None))" .
  have set: "is_set (click_url I)"
    using assms(5) \<open>c \<noteq> []\<close> by simp
  have "fst (snd (processClickAction P W actionType h)) =
          fst (route P W I) @ trackClickAction W I actionType"
    using assms(2) r set
    by (simp add: processClickAction_def process_try_def Let_def)
  moreover have "navigations (fst (route P W I)) =
                   (if deeplink_outcome W d = Resolves True then [] else [c])"
    by (simp add: r navigations_def)
  ultimately show ?thesis
    by (simp add: navigations_append navigations_trackClickAction)
qed

text \<open>The three outcomes of the attempt, on \<open>deeplink_first_set\<close>.\<close>

theorem deeplink_priority_fallback_witness:
  "navigations (fst (snd (processClickAction sample_platform sample_window (js ''manual_click'')
       (handler_with deeplink_first_set)))) = [js ''https://x.test'']
   \<and> navigations (fst (snd (processClickAction sample_platform
       (sample_window\<lparr>deeplink_outcome := (\<lambda>u. Rejects (Error (js ''blocked'') None))\<rparr>)
       (js ''manual_click'') (handler_with deeplink_first_set)))) = [js ''https://x.test'']
   \<and> navigations (fst (snd (processClickAction sample_platform
       (sample_window\<lparr>deeplink_outcome := (\<lambda>u. Resolves True)\<rparr>)
       (js ''manual_click'') (handler_with deeplink_first_set)))) = []"
proof -
  have h: "instructionSet (handler_with deeplink_first_set) = Some deeplink_first_set"
    by (simp add: handler_with_def)
  have f: "deeplink_priority deeplink_first_set"
    "deeplink_url deeplink_first_set = Some (js ''myapp://open'')"
    "click_url deeplink_first_set = Some (js ''https://x.test'')"
    by (simp_all add: deeplink_first_set_def)
  note t = deeplink_priority_fallback[OF deeplink_first_set_validated h f]
  show ?thesis
    using t[of sample_window "js ''manual_click''"]
      t[of "sample_window\<lparr>deeplink_outcome := (\<lambda>u. Rejects (Error (js ''blocked'') None))\<rparr>"
           "js ''manual_click''"]
      t[of "sample_window\<lparr>deeplink_outcome := (\<lambda>u. Resolves True)\<rparr>" "js ''manual_click''"]
    by (simp add: sample_window_def)
qed

text \<open>
  C8. With \<open>auto_click\<close> on and \<open>auto_click_delay\<close> set to 0, \<open>scheduleAutoClick\<close> arms
  the timer with the 3000 ms default, not with 0: \<open>0 || 3000\<close> is 3000. (For every other
  delay that validation lets through the timer gets the delay itself, and the default
  when it is unset: \<open>scheduleAutoClick_delay\<close>.)
\<close>

theorem scheduleAutoClick_zero_delay:
  assumes "instructionSet h = Some I" and "auto_click I"
    and "auto_click_delay I = Some (Finite 0)"
  shows "scheduleAutoClick handle h =
           Some (h\<lparr>autoClickTimer := Some handle\<rparr>,
                 (case autoClickTimer h of
                    None \<Rightarrow> []
                  | Some t \<Rightarrow> if t = 0 then [] else [ClearTimeout t])
                 @ [SetTimeout handle (Finite 3000)])"
  using assms
  by (simp add: scheduleAutoClick_def auto_click_delay_or_default_def
      DEFAULT_AUTO_CLICK_DELAY_def Let_def)

text \<open>\<open>zero_delay_set\<close> is what validation returns for \<open>auto_click_delay: 0\<close>.\<close>

theorem scheduleAutoClick_zero_delay_witness:
  "scheduleAutoClick 1 (handler_with zero_delay_set) =
     Some ((handler_with zero_delay_set)\<lparr>autoClickTimer := Some 1\<rparr>, [SetTimeout 1 (Finite 3000)])"
proof -
  have "instructionSet (handler_with zero_delay_set) = Some zero_delay_set"
    and "autoClickTimer (handler_with zero_delay_set) = None"
    by (simp_all add: handler_with_def new_ClickHandler_def)
  moreover have "auto_click zero_delay_set" "auto_click_delay zero_delay_set = Some (Finite 0)"
    by (simp_all add: zero_delay_set_def)
  ultimately show ?thesis
    using scheduleAutoClick_zero_delay[of "handler_with zero_delay_set" zero_delay_set 1]
    by simp
qed

lemma tracking_effects_append:
  "tracking_effects (xs @ ys) = tracking_effects xs @ tracking_effects ys"
  by (simp add: tracking_effects_def)

lemma error_reports_append:
  "error_reports (xs @ ys) = error_reports xs @ error_reports ys"
  by (simp add: error_reports_def)

lemma openClickUrl_silent:
  "tracking_effects (fst (openClickUrl P u)) = []" "error_reports (fst (openClickUrl P u)) = []"
  by (simp_all add: openClickUrl_def tracking_effects_def error_reports_def split: option.splits)

lemma attemptDeeplinkOpen_silent:
  "tracking_effects (fst (attemptDeeplinkOpen W u)) = []"
  "error_reports (fst (attemptDeeplinkOpen W u)) = []"
  by (simp_all add: attemptDeeplinkOpen_def tracking_effects_def error_reports_def
      split: option.splits)

lemma fallback_after_error_silent:
  "tracking_effects (fst (fallback_after_error P I)) = []"
  "error_reports (fst (fallback_after_error P I)) = []"
  by (simp_all add: fallback_after_error_def openClickUrl_silent)
     (simp_all add: tracking_effects_def error_reports_def)

lemma attemptDeeplinkWithFallback_silent:
  "tracking_effects (fst (attemptDeeplinkWithFallback P W I)) = []"
  "error_reports (fst (attemptDeeplinkWithFallback P W I)) = []"
  using attemptDeeplinkOpen_silent[of W "deeplink_url I"]
    openClickUrl_silent[of P "click_url I"] fallback_after_error_silent[of P I]
  by (auto simp: attemptDeeplinkWithFallback_def tracking_effects_append error_reports_append
      split: prod.splits sum.splits option.splits)

lemma route_silent:
  "tracking_effects (fst (route P W I)) = []" "error_reports (fst (route P W I)) = []"
  using attemptDeeplinkWithFallback_silent[of P W I]
    openClickUrl_silent[of P "click_url I"] attemptDeeplinkOpen_silent[of W "deeplink_url I"]
  by (auto simp: route_def tracking_effects_def error_reports_def split: prod.splits sum.splits)

lemma trackClickAction_effects:
  "tracking_effects (trackClickAction W I a) = trackClickAction W I a"
  "error_reports (trackClickAction W I a) = []"
  by (simp_all add: trackClickAction_def tracking_effects_def error_reports_def Let_def
      split: option.splits)

lemma handleClickError_effects:
  "tracking_effects (fst (handleClickError W e a)) = []"
  "error_reports (fst (handleClickError W e a)) =
     (case firebaseService W of
        None \<Rightarrow> []
      | Some fb \<Rightarrow> [ReportError e (js ''click_handler_'' @ a)])"
  by (simp_all add: handleClickError_def showErrorMessage_def tracking_effects_def
      error_reports_def Let_def split: option.splits)

lemma deeplink_first_set_route:
  "route sample_platform sample_window deeplink_first_set =
     ([AppendIframe (js ''myapp://open''), SetLocationHref (js ''https://x.test'')], None)"
  by (simp add: route_def attemptDeeplinkWithFallback_def attemptDeeplinkOpen_def
      openClickUrl_def deeplink_first_set_def sample_window_def sample_platform_def js_def)

text \<open>
  C9, as the code has it. A run of \<open>processClickAction\<close> on an instruction set tracks the
  action exactly when \<open>click_url\<close> or \<open>deeplink_url\<close> is set and routing does not throw.
  It then calls the collaborator's \<open>trackClick\<close> with the action type, the target URL and
  the deeplink marker when the collaborator is present, and writes the record of action
  type, presence of \<open>deeplink_url\<close> and of \<open>click_url\<close>, and priority flag unless that call
  throws. With no URL the \<open>try\<close> block returns before \<open>trackClickAction\<close> and nothing is
  tracked or reported. An error thrown by routing goes to \<open>handleClickError\<close>, which reports
  it to the collaborator when present, and the action is not tracked.
\<close>

theorem processClickAction_tracking:
  assumes "instructionSet h = Some I"
  shows "tracking_effects (fst (snd (processClickAction P W actionType h))) =
           (if (is_set (click_url I) \<or> is_set (deeplink_url I)) \<and> snd (route P W I) = None then
              (case firebaseService W of
                 None \<Rightarrow>
                   [LogClickTracked actionType (is_set (deeplink_url I)) (is_set (click_url I))
                      (deeplink_priority I)]
               | Some fb \<Rightarrow>
                   TrackClick actionType
                     (if deeplink_priority I \<and> is_set (deeplink_url I) then deeplink_url I
                      else click_url I)
                     (if \<not> deeplink_priority I then JBool False
                      else (case deeplink_url I of None \<Rightarrow> JNull | Some d \<Rightarrow> JString d))
                   # (if trackClick_throws fb then []
                      else [LogClickTracked actionType (is_set (deeplink_url I))
                              (is_set (click_url I)) (deeplink_priority I)]))
            else [])
         \<and> error_reports (fst (snd (processClickAction P W actionType h))) =
           (if is_set (click_url I) \<or> is_set (deeplink_url I) then
              (case snd (route P W I) of
                 None \<Rightarrow> []
               | Some error \<Rightarrow>
                   (case firebaseService W of
                      None \<Rightarrow> []
                    | Some fb \<Rightarrow> [ReportError error (js ''click_handler_'' @ actionType)]))
            else [])"
proof (cases "is_set (click_url I) \<or> is_set (deeplink_url I)")
  case False
  then have "fst (snd (processClickAction P W actionType h)) = []"
    using assms by (simp add: processClickAction_def process_try_def Let_def)
  with False show ?thesis
    by (simp add: tracking_effects_def error_reports_def)
next
  case True
  obtain es r where route: "route P W I = (es, r)"
    by (cases "route P W I")
  have es: "tracking_effects es = []" "error_reports es = []"
    using route_silent[of P W I] route by simp_all
  show ?thesis
  proof (cases r)
    case None
    then have "fst (snd (processClickAction P W actionType h)) =
                 es @ trackClickAction W I actionType"
      using assms True route by (auto simp: processClickAction_def process_try_def Let_def)
    then have "tracking_effects (fst (snd (processClickAction P W actionType h))) =
                 trackClickAction W I actionType"
      and "error_reports (fst (snd (processClickAction P W actionType h))) = []"
      by (simp_all add: tracking_effects_append error_reports_append es trackClickAction_effects)
    with None True route show ?thesis
      by (simp add: trackClickAction_def Let_def split: option.splits)
  next
    case (Some error)
    then have "fst (snd (processClickAction P W actionType h)) =
                 es @ fst (handleClickError W error actionType)"
      using assms True route
      by (auto simp: processClickAction_def process_try_def Let_def split: prod.splits)
    then have "tracking_effects (fst (snd (processClickAction P W actionType h))) = []"
      and "error_reports (fst (snd (processClickAction P W actionType h))) =
             (case firebaseService W of
                None \<Rightarrow> []
              | Some fb \<Rightarrow> [ReportError error (js ''click_handler_'' @ actionType)])"
      by (simp_all add: tracking_effects_append error_reports_append es handleClickError_effects)
    with Some True route show ?thesis
      by simp
  qed
qed

text \<open>
  On \<open>deeplink_first_set\<close> with the collaborator present, the deeplink attempt resolving
  \<open>false\<close>: the call to \<open>trackClick\<close>, then the record with all three flags true.
\<close>

theorem processClickAction_tracking_witness:
  "tracking_effects
     (fst (snd (processClickAction sample_platform sample_window (js ''manual_click'')
        (handler_with deeplink_first_set)))) =
     [TrackClick (js ''manual_click'') (Some (js ''myapp://open'')) (JString (js ''myapp://open'')),
      LogClickTracked (js ''manual_click'') True True True]
   \<and> error_reports
     (fst (snd (processClickAction sample_platform sample_window (js ''manual_click'')
        (handler_with deeplink_first_set)))) = []"
proof -
  have h: "instructionSet (handler_with deeplink_first_set) = Some deeplink_first_set"
    by (simp add: handler_with_def)
  have f: "is_set (click_url deeplink_first_set)" "is_set (deeplink_url deeplink_first_set)"
    "deeplink_priority deeplink_first_set"
    "deeplink_url deeplink_first_set = Some (js ''myapp://open'')"
    by (simp_all add: deeplink_first_set_def js_def)
  have w: "firebaseService sample_window
             = Some \<lparr>trackClick_throws = False, reportError_throws = None\<rparr>"
    by (simp add: sample_window_def)
  have ne: "js ''myapp://open'' \<noteq> []"
    by (simp add: js_def)
  show ?thesis
    using processClickAction_tracking[OF h, of sample_platform sample_window "js ''manual_click''"]
    by (simp add: deeplink_first_set_route f w ne)
qed

text \<open>
  C9 as stated fails: nothing is tracked for an instruction set without URLs, nor for one
  whose \<open>click_url\<close> does not parse, where \<open>openClickUrl\<close> throws.
\<close>

theorem processClickAction_untracked_counterexample:
  "tracking_effects
     (fst (snd (processClickAction sample_platform sample_window (js ''manual_click'')
        (handler_with no_url_set)))) = []
   \<and> tracking_effects
     (fst (snd (processClickAction sample_platform sample_window (js ''manual_click'')
        (handler_with unparsable_click_set)))) = []"
  by (simp add: processClickAction_def process_try_def route_def openClickUrl_def
      handleClickError_def showErrorMessage_def handler_with_def new_ClickHandler_def
      no_url_set_def unparsable_click_set_def sample_window_def sample_platform_def
      tracking_effects_def js_def Let_def)

text \<open>
  C10. Every run of \<open>processClickAction\<close> on a handler that holds an instruction set
  leaves the handler as it was with \<open>isProcessingClick\<close> false, whatever routing did:
  returned early, completed, threw, or threw again from \<open>handleClickError\<close>. A click
  that follows is therefore processed, not ignored by the guard of \<open>handleClick\<close>.
\<close>

theorem processClickAction_clears_guard:
  assumes "instructionSet h = Some I"
  shows "fst (processClickAction P W actionType h) = h\<lparr>isProcessingClick := False\<rparr>
         \<and> handleClick P W (fst (processClickAction P W actionType h))
             = processClickAction P W (js ''manual_click'')
                 (fst (processClickAction P W actionType h))"
proof -
  have "fst (processClickAction P W actionType h) = h\<lparr>isProcessingClick := False\<rparr>"
    using assms by (simp add: processClickAction_def Let_def split: prod.splits)
  then show ?thesis
    by (simp add: handleClick_def)
qed

text \<open>
  Routing throws on \<open>unparsable_click_set\<close>; in the second run the collaborator's
  \<open>reportError\<close> throws as well.
\<close>

theorem processClickAction_clears_guard_witness:
  "isProcessingClick (fst (processClickAction sample_platform sample_window (js ''manual_click'')
      (handler_with unparsable_click_set))) = False
   \<and> isProcessingClick (fst (processClickAction sample_platform
      (sample_window\<lparr>firebaseService :=
          Some \<lparr>trackClick_throws = False, reportError_throws = Some (Error (js ''offline'') None)\<rparr>\<rparr>)
      (js ''manual_click'') (handler_with unparsable_click_set))) = False"
proof -
  have h: "instructionSet (handler_with unparsable_click_set) = Some unparsable_click_set"
    by (simp add: handler_with_def)
  show ?thesis
    by (simp add: processClickAction_clears_guard[OF h])
qed

section \<open>Base64 round trip\<close>

lemma unat_code_unit: "n < 65536 \<Longrightarrow> unat (of_nat n :: 16 word) = n"
  by (simp add: unat_of_nat)

lemma b64_value_b64_char: "n < 64 \<Longrightarrow> b64_value (b64_char n) = Some n"
proof -
  assume n: "n < 64"
  consider "n < 26" | "26 \<le> n" "n < 52" | "52 \<le> n" "n < 62" | "n = 62" | "n = 63"
    using n by linarith
  then show ?thesis
  proof cases
    case 1
    then have "unat (of_nat (65 + n) :: 16 word) = 65 + n"
      by (intro unat_code_unit) simp
    with 1 show ?thesis
      by (simp add: b64_value_def b64_char_def Let_def)
  next
    case 2
    then have "unat (of_nat (71 + n) :: 16 word) = 71 + n"
      by (intro unat_code_unit) simp
    with 2 show ?thesis
      by (simp add: b64_value_def b64_char_def Let_def)
  next
    case 3
    then have "unat (of_nat (n - 4) :: 16 word) = n - 4"
      by (intro unat_code_unit) simp
    with 3 show ?thesis
      by (simp add: b64_value_def b64_char_def Let_def) arith
  next
    case 4
    then show ?thesis
      by (simp add: b64_value_def b64_char_def Let_def)
  next
    case 5
    then show ?thesis
      by (simp add: b64_value_def b64_char_def Let_def)
  qed
qed

lemma b64_value_special:
  "b64_value 0x3D = None" "b64_value 0x20 = None" "b64_value 0x2D = None" "b64_value 0x5F = None"
  "b64_value 0x09 = None" "b64_value 0x0A = None" "b64_value 0x0C = None" "b64_value 0x0D = None"
  by (simp_all add: b64_value_def)

lemma b64_value_excludes:
  assumes "b64_value c = Some n"
  shows "c \<noteq> 0x3D" "c \<noteq> 0x20" "c \<noteq> 0x2D" "c \<noteq> 0x5F" "\<not> is_ascii_whitespace c"
  using assms b64_value_special by (auto simp: is_ascii_whitespace_def)

lemma b64_encode_sextets:
  "b64_encode bs = map b64_char (b64_sextets bs) @ replicate (b64_pad bs) 0x3D"
  by (induction bs rule: b64_encode.induct) (simp_all add: replicate_2)
lemma length_b64_sextets:
  "(length (b64_sextets bs) + b64_pad bs) mod 4 = 0 \<and> b64_pad bs \<le> 2
   \<and> (bs \<noteq> [] \<longrightarrow> b64_sextets bs \<noteq> [])"
  by (induction bs rule: b64_sextets.induct) simp_all

lemma sextet_bounds:
  assumes "a < 256" "b < 256" "c < 256"
  shows "a div 4 < 64" "a mod 4 * 16 + b div 16 < 64" "b mod 16 * 4 + c div 64 < 64" "c mod 64 < (64::nat)"
    "b mod 16 * 4 < 64" "a mod 4 * 16 < 64"
  using assms by (simp_all add: div_less_iff_less_mult) (arith+)?

lemma sextet_join:
  fixes a b c :: nat
  assumes "b < 256" "c < 256"
  shows "a div 4 * 4 + (a mod 4 * 16 + b div 16) div 16 = a"
    "(a mod 4 * 16 + b div 16) mod 16 * 16 + (b mod 16 * 4 + c div 64) div 4 = b"
    "(b mod 16 * 4 + c div 64) mod 4 * 64 + c mod 64 = c"
    "(a mod 4 * 16 + b div 16) mod 16 * 16 + (b mod 16 * 4) div 4 = b"
    "a div 4 * 4 + (a mod 4 * 16) div 16 = a"
proof -
  have b16: "b div 16 < 16" and c64: "c div 64 < 4"
    using assms by (simp_all add: div_less_iff_less_mult)
  have d1: "(a mod 4 * 16 + b div 16) div 16 = a mod 4"
    using b16 by simp
  have d2: "(b mod 16 * 4 + c div 64) div 4 = b mod 16"
    using c64 by simp
  show "a div 4 * 4 + (a mod 4 * 16 + b div 16) div 16 = a"
    by (simp add: d1)
  show "(a mod 4 * 16 + b div 16) mod 16 * 16 + (b mod 16 * 4 + c div 64) div 4 = b"
    using b16 by (simp add: d2)
  show "(b mod 16 * 4 + c div 64) mod 4 * 64 + c mod 64 = c"
    using c64 by simp
  show "(a mod 4 * 16 + b div 16) mod 16 * 16 + (b mod 16 * 4) div 4 = b"
    using b16 by simp
  show "a div 4 * 4 + (a mod 4 * 16) div 16 = a"
    by simp
qed

lemma unat_byte_less: "unat (b :: 8 word) < 256"
  using unsigned_less[of b] by simp

lemma unat_ucast_byte: "unat (ucast (b :: 8 word) :: 16 word) = unat b"
proof -
  have "unat b < 2 ^ 16"
    using unat_byte_less[of b] by simp
  then show ?thesis
    by (simp add: unsigned_ucast_eq take_bit_nat_eq_self)
qed

lemma ucast_byte_le: "(ucast (b :: 8 word) :: 16 word) \<le> 0xFF"
  using unat_byte_less[of b] by (simp add: word_le_nat_alt unat_ucast_byte)

lemma ucast_ucast_byte: "ucast (ucast (b :: 8 word) :: 16 word) = b"
  by (simp add: ucast_up_ucast_id is_up)

lemma b64_sextets_less:
  "\<forall>b \<in> set bs. b < 256 \<Longrightarrow> \<forall>s \<in> set (b64_sextets bs). s < 64"
proof (induction bs rule: b64_sextets.induct)
  case (1 a b c rest)
  then have "a < 256" "b < 256" "c < 256" by simp_all
  from sextet_bounds[OF this] 1 show ?case by simp
next
  case (2 a b)
  then have "a < 256" "b < 256" by simp_all
  from sextet_bounds[OF this this(2)] show ?case by simp
next
  case (3 a)
  then have "a < 256" by simp
  from sextet_bounds[OF this this this] show ?case by simp
next
  case 4
  show ?case by simp
qed

lemma b64_decode_sextets:
  "\<forall>b \<in> set bs. b < 256 \<Longrightarrow> b64_decode (b64_sextets bs) = bs"
proof (induction bs rule: b64_sextets.induct)
  case (1 a b c rest)
  then have "b < 256" "c < 256" by simp_all
  from sextet_join[OF this] 1 show ?case by simp
next
  case (2 a b)
  then have "b < 256" by simp
  from sextet_join[OF this this] show ?case by simp
next
  case (3 a)
  show ?case by (simp add: sextet_join(5)[of 0 0])
next
  case 4
  show ?case by simp
qed

lemma those_b64_value:
  "\<forall>s \<in> set ss. s < 64 \<Longrightarrow> those (map b64_value (map b64_char ss)) = Some ss"
  by (induction ss) (simp_all add: b64_value_b64_char)

lemma b64_char_excludes:
  assumes "n < 64"
  shows "b64_char n \<noteq> 0x3D" "b64_char n \<noteq> 0x20" "b64_char n \<noteq> 0x2D" "b64_char n \<noteq> 0x5F"
    "\<not> is_ascii_whitespace (b64_char n)"
  using b64_value_excludes[OF b64_value_b64_char[OF assms]] by simp_all

lemma btoa_of_bytes: "btoa (map ucast (bs :: bytes)) = Some (b64_encode (map unat bs))"
  by (simp add: btoa_def ucast_byte_le unat_ucast_byte comp_def)

lemma charCodes_of_bytes: "charCodes (map of_nat (map unat bs)) = (bs :: bytes)"
  by (simp add: charCodes_def comp_def ucast_ucast_byte map_idI)

text \<open>On characters of the alphabet, the rewriting of \<open>encrypt\<close> is undone by that of
  \<open>base64ToArrayBuffer\<close>.\<close>

lemma url_safe_roundtrip:
  "\<forall>c \<in> set s. b64_value c \<noteq> None \<Longrightarrow>
   replace_all 0x5F 0x2F (replace_all 0x2D 0x2B (replace_all 0x20 0x2B
     (replace_all 0x2F 0x5F (replace_all 0x2B 0x2D s)))) = s"
proof (induction s)
  case Nil
  show ?case by (simp add: replace_all_def)
next
  case (Cons c s)
  then obtain n where "b64_value c = Some n" by auto
  from b64_value_excludes[OF this] Cons show ?case
    by (auto simp: replace_all_def)
qed

lemma url_safe_no_equals:
  "\<forall>c \<in> set s. b64_value c \<noteq> None \<Longrightarrow>
   \<forall>c \<in> set (replace_all 0x2F 0x5F (replace_all 0x2B 0x2D s)). c \<noteq> 0x3D"
  using b64_value_special(1) by (auto simp: replace_all_def)

lemma strip_trailing_equals_append:
  "\<forall>c \<in> set s. c \<noteq> 0x3D \<Longrightarrow> strip_trailing_equals (s @ replicate p 0x3D) = s"
proof -
  assume a: "\<forall>c \<in> set s. c \<noteq> 0x3D"
  have "dropWhile (\<lambda>c. c = 0x3D) (rev s) = rev s"
    using a by (cases "rev s") (auto simp: dropWhile_eq_self_iff)
  moreover have "dropWhile (\<lambda>c. c = 0x3D) (replicate p 0x3D @ rev s)
                 = dropWhile (\<lambda>c. c = 0x3D) (rev s)"
    by (rule dropWhile_append2) simp
  ultimately show ?thesis
    by (simp add: strip_trailing_equals_def)
qed

lemma strip_padding_append:
  assumes "\<forall>c \<in> set s. c \<noteq> 0x3D" and "p \<le> 2" and "(length s + p) mod 4 = 0"
  shows "strip_padding (s @ replicate p 0x3D) = s"
proof -
  consider "p = 0" | "p = 1" | "p = 2"
    using assms(2) by linarith
  then show ?thesis
  proof cases
    case 1
    have "s \<noteq> [] \<Longrightarrow> last s \<noteq> 0x3D"
      using assms(1) last_in_set by blast
    with 1 show ?thesis
      by (auto simp: strip_padding_def)
  next
    case 2
    have "s \<noteq> []"
      using assms(3) 2 by auto
    then have "last s \<noteq> 0x3D"
      using assms(1) last_in_set by blast
    with 2 \<open>s \<noteq> []\<close> assms(3) show ?thesis
      by (simp add: strip_padding_def butlast_append)
  next
    case 3
    with assms(3) show ?thesis
      by (simp add: strip_padding_def replicate_2 butlast_append)
  qed
qed

lemma padding_needed:
  assumes "p \<le> 2" and "(n + p) mod 4 = 0"
  shows "(if n mod 4 > 0 then xs @ replicate (4 - n mod 4) c else xs) = xs @ replicate p (c :: 16 word)"
proof -
  consider "p = 0" | "p = 1" | "p = 2"
    using assms(1) by linarith
  then show ?thesis
  proof cases
    case 1
    with assms(2) show ?thesis by simp
  next
    case 2
    with assms(2) have "n mod 4 = 3" by presburger
    with 2 show ?thesis by simp
  next
    case 3
    with assms(2) have "n mod 4 = 2" by presburger
    with 3 show ?thesis by simp
  qed
qed

lemma not_one_mod_four:
  assumes "p \<le> 2" and "(n + p) mod 4 = 0"
  shows "n mod 4 \<noteq> (1::nat)"
  using assms by presburger

text \<open>
  The string \<open>encrypt\<close> returns for a byte sequence, and what \<open>base64ToArrayBuffer\<close>
  makes of it.
\<close>

lemma url_safe_base64_decodes:
  fixes bs :: bytes
  assumes "bs \<noteq> []"
  defines "payload \<equiv> strip_trailing_equals
             (replace_all 0x2F 0x5F (replace_all 0x2B 0x2D (b64_encode (map unat bs))))"
  shows "payload \<noteq> []" and "base64ToArrayBuffer P payload = Inr bs"
proof -
  let ?ns = "map unat bs"
  let ?ss = "b64_sextets ?ns"
  let ?p = "b64_pad ?ns"
  let ?body = "map b64_char ?ss"
  let ?safe = "replace_all 0x2F 0x5F (replace_all 0x2B 0x2D ?body)"
  have bytes: "\<forall>b \<in> set ?ns. b < 256"
    by (simp add: unat_byte_less)
  have sextets: "\<forall>s \<in> set ?ss. s < 64"
    using bytes by (rule b64_sextets_less)
  have alphabet: "\<forall>c \<in> set ?body. b64_value c \<noteq> None"
    using sextets by (simp add: b64_value_b64_char)
  have len: "(length ?ss + ?p) mod 4 = 0" and pad: "?p \<le> 2" and ne: "?ss \<noteq> []"
    using length_b64_sextets[of ?ns] assms(1) by simp_all
  have enc: "b64_encode ?ns = ?body @ replicate ?p 0x3D"
    by (rule b64_encode_sextets)
  have "replace_all 0x2F 0x5F (replace_all 0x2B 0x2D (b64_encode ?ns)) = ?safe @ replicate ?p 0x3D"
    by (simp add: enc replace_all_append replace_all_replicate)
  then have payload: "payload = ?safe"
    using url_safe_no_equals[OF alphabet]
    by (simp add: payload_def strip_trailing_equals_append)
  show "payload \<noteq> []"
    using ne by (simp add: payload replace_all_def)
  have len': "(length ?body + ?p) mod 4 = 0"
    using len by simp
  have "replace_all 0x5F 0x2F (replace_all 0x2D 0x2B (replace_all 0x20 0x2B payload)) = ?body"
    unfolding payload using alphabet by (rule url_safe_roundtrip)
  then have "normalizeBase64 payload =
               (if length ?body mod 4 > 0
                then ?body @ replicate (4 - length ?body mod 4) 0x3D else ?body)"
    by (simp add: normalizeBase64_def Let_def)
  also have "\<dots> = ?body @ replicate ?p 0x3D"
    using pad len' by (rule padding_needed)
  finally have "normalizeBase64 payload = ?body @ replicate ?p 0x3D" .
  moreover have "filter (\<lambda>c. \<not> is_ascii_whitespace c) (?body @ replicate ?p 0x3D)
                 = ?body @ replicate ?p 0x3D"
  proof -
    have "\<forall>c \<in> set ?body. \<not> is_ascii_whitespace c"
      using sextets by (simp add: b64_char_excludes)
    moreover have "\<not> is_ascii_whitespace 0x3D"
      by (simp add: is_ascii_whitespace_def)
    ultimately show ?thesis
      by (simp add: filter_id_conv)
  qed
  moreover have "strip_padding (?body @ replicate ?p 0x3D) = ?body"
  proof (rule strip_padding_append[OF _ pad])
    show "\<forall>c \<in> set ?body. c \<noteq> 0x3D"
      using sextets by (simp add: b64_char_excludes)
    show "(length ?body + ?p) mod 4 = 0"
      using len by simp
  qed
  moreover have "length ?body mod 4 \<noteq> 1"
    using pad len' by (rule not_one_mod_four)
  moreover have "those (map b64_value ?body) = Some ?ss"
    using sextets by (rule those_b64_value)
  moreover have "b64_decode ?ss = ?ns"
    using bytes by (rule b64_decode_sextets)
  ultimately have "atob (normalizeBase64 payload) = Some (map of_nat ?ns)"
    by (simp add: atob_def Let_def)
  then have "base64ToArrayBuffer P payload = Inr (charCodes (map of_nat ?ns))"
    using \<open>payload \<noteq> []\<close> by (simp add: base64ToArrayBuffer_def)
  then show "base64ToArrayBuffer P payload = Inr bs"
    by (simp only: charCodes_of_bytes)
qed

section \<open>Encrypt, then decrypt\<close>

lemma key_imports:
  assumes "\<forall>c \<in> set (take 32 keyString). c < 0x80"
  shows "crypto_subtle_importKey P (key_material keyString) = Inr (key_material keyString)"
  using key_material_ascii(2)[OF assms] by (simp add: crypto_subtle_importKey_def)

text \<open>What \<open>encrypt\<close> returns when nothing fails.\<close>

lemma encrypt_returns:
  assumes "validateInstructionSet P I = Inr V"
    and "crypto_subtle_importKey P (key_material (encryptionKey svc))
         = Inr (key_material (encryptionKey svc))"
    and "length (iv @ aes_gcm_encrypt P (key_material (encryptionKey svc)) iv
                        (TextEncoder_encode (JSON_stringify P I)))
         \<le> max_apply_arguments P"
  shows "snd (encrypt P svc iv I) =
           Inr (strip_trailing_equals
                  (replace_all 0x2F 0x5F (replace_all 0x2B 0x2D
                     (b64_encode
                        (map unat (iv @ aes_gcm_encrypt P (key_material (encryptionKey svc)) iv
                                          (TextEncoder_encode (JSON_stringify P I))))))))"
proof -
  let ?combined = "iv @ aes_gcm_encrypt P (key_material (encryptionKey svc)) iv
                          (TextEncoder_encode (JSON_stringify P I))"
  have "fromCharCode P ?combined = Some (map ucast ?combined)"
    using assms(3) by (simp add: fromCharCode_def)
  then show ?thesis
    using assms(1,2) btoa_of_bytes[of ?combined]
    by (simp add: encrypt_def Let_def)
qed

text \<open>
  The round trip through \<open>encrypt\<close> and \<open>decrypt\<close>: the URL-safe, unpadded base64 that
  \<open>encrypt\<close> writes is read back to the same bytes, the IV is split off where it was
  joined, and the first pass of \<open>decrypt\<close> succeeds with what validation makes of the
  object.
\<close>

lemma encrypt_then_decrypt:
  assumes "validateInstructionSet P I = Inr V"
    and "validateDecryptionKey svc"
    and "\<forall>c \<in> set (take 32 (encryptionKey svc)). c < 0x80"
    and "length iv = IV_LENGTH svc"
    and "length (iv @ aes_gcm_encrypt P (key_material (encryptionKey svc)) iv
                        (TextEncoder_encode (JSON_stringify P I)))
         \<le> max_apply_arguments P"
    and "TAG_LENGTH svc <
           length (aes_gcm_encrypt P (key_material (encryptionKey svc)) iv
                     (TextEncoder_encode (JSON_stringify P I)))"
    and "aes_gcm_decrypt P (key_material (encryptionKey svc)) iv
           (aes_gcm_encrypt P (key_material (encryptionKey svc)) iv
              (TextEncoder_encode (JSON_stringify P I)))
         = Inr (TextEncoder_encode (JSON_stringify P I))"
    and "JSON_parse P (TextDecoder_decode P (TextEncoder_encode (JSON_stringify P I))) = Some I"
  shows "\<exists>payload. snd (encrypt P svc iv I) = Inr payload
                    \<and> snd (decrypt P svc payload) = Inr V"
proof -
  let ?k = "key_material (encryptionKey svc)"
  let ?pt = "TextEncoder_encode (JSON_stringify P I)"
  let ?ct = "aes_gcm_encrypt P ?k iv ?pt"
  let ?combined = "iv @ ?ct"
  let ?payload = "strip_trailing_equals
     (replace_all 0x2F 0x5F (replace_all 0x2B 0x2D (b64_encode (map unat ?combined))))"
  have import: "crypto_subtle_importKey P ?k = Inr ?k"
    using assms(3) by (rule key_imports)
  have enc: "snd (encrypt P svc iv I) = Inr ?payload"
    using assms(1) import assms(5) by (rule encrypt_returns)
  have ne: "?combined \<noteq> []"
    using assms(6) by auto
  have payload_ne: "?payload \<noteq> []"
    and decoded: "base64ToArrayBuffer P ?payload = Inr ?combined"
    using url_safe_base64_decodes[OF ne] by simp_all
  have long: "\<not> length ?combined < IV_LENGTH svc + TAG_LENGTH svc + 1"
    using assms(4,6) by simp
  have "snd (decrypt_pass P svc ?payload) = Inr V"
    using decoded long import assms(1,4,7,8)
    by (simp add: decrypt_pass_def importKey_def Let_def parseInstructionSet_def)
  then obtain ops where "decrypt_pass P svc ?payload = (ops, Inr V)"
    by (cases "decrypt_pass P svc ?payload") simp
  from decrypt_of_successful_pass[OF payload_ne assms(2) this]
  have "snd (decrypt P svc ?payload) = Inr V"
    by simp
  with enc show ?thesis
    by blast
qed

text \<open>What validation returns, field by field.\<close>

lemma validated_record:
  assumes "validateInstructionSet P I = Inr V"
  shows "V = \<lparr> image_url = get_property I (js ''image_url''),
               click_url = (case get_property I (js ''click_url'') of
                              JString s \<Rightarrow> Some s | _ \<Rightarrow> None),
               deeplink_url = (case get_property I (js ''deeplink_url'') of
                                 JString s \<Rightarrow> if s = [] then None else Some s
                               | _ \<Rightarrow> None),
               auto_click = truthy (get_property I (js ''auto_click'')),
               deeplink_priority = truthy (get_property I (js ''deeplink_priority'')),
               auto_click_delay =
                 (if get_property I (js ''auto_click_delay'') \<noteq> JUndefined
                  then Some (Number P (get_property I (js ''auto_click_delay''))) else None),
               title = get_property I (js ''title''),
               description = get_property I (js ''description'') \<rparr>"
    and "typeof_string (get_property I (js ''click_url''))"
  using assms by (auto simp: validateInstructionSet_def Let_def split: if_splits)

lemma url_field_filled:
  "url_field_typed v \<Longrightarrow>
   url_field_equal v (case v of JString s \<Rightarrow> if s = [] then None else Some s | _ \<Rightarrow> None)"
  by (cases v) simp_all

lemma click_url_field_filled:
  "typeof_string v \<Longrightarrow> url_field_equal v (case v of JString s \<Rightarrow> Some s | _ \<Rightarrow> None)"
  by (cases v) simp_all

lemma flag_field_filled: "flag_field_typed v \<Longrightarrow> flag_field_equal v (truthy v)"
  by (cases v) simp_all

lemma delay_field_filled:
  "delay_field_typed v \<Longrightarrow>
   delay_field_equal v (if v \<noteq> JUndefined then Some (Number P v) else None)"
  by (cases v) simp_all

lemma validated_equal_field_for_field:
  assumes "validateInstructionSet P I = Inr V" and "typed_instruction_set I"
  shows "equal_field_for_field I V"
  using assms(2)
  by (simp add: validated_record(1)[OF assms(1)] equal_field_for_field_def
      typed_instruction_set_def url_field_filled flag_field_filled delay_field_filled
      click_url_field_filled[OF validated_record(2)[OF assms(1)]])

text \<open>A delay given as \<open>null\<close> is not left alone: \<open>Number(null)\<close> is 0.\<close>

lemma null_delay_validates_to_zero:
  assumes "validateInstructionSet P I = Inr V"
    and "get_property I (js ''auto_click_delay'') = JNull"
  shows "auto_click_delay V = Some (Finite 0)"
  using assms(2) by (simp add: validated_record(1)[OF assms(1)])


lemma sample_raw_validated: "validateInstructionSet sample_platform sample_raw = Inr sample_validated"
  by (simp add: validateInstructionSet_def sample_raw_def sample_validated_def Let_def js_def
      isValidUrl_def sample_platform_def)

lemma null_delay_raw_validated:
  "validateInstructionSet sample_platform null_delay_raw = Inr null_delay_result"
  by (simp add: validateInstructionSet_def null_delay_raw_def null_delay_result_def Let_def
      js_def isValidUrl_def sample_platform_def isNaN_def)

lemma default_key_ascii:
  "\<forall>c \<in> set (take 32 (encryptionKey (new_DecryptionService no_config))). c < 0x80"
  by (simp add: default_service default_encryption_key_def js_def)

lemma short_key_ascii: "\<forall>c \<in> set (take 32 (encryptionKey short_key_service)). c < 0x80"
  by (simp add: short_key_service_def js_def)

lemma sample_cipher_roundtrip:
  "16 \<le> length key \<Longrightarrow>
   aes_gcm_decrypt sample_platform key iv (aes_gcm_encrypt sample_platform key iv pt) = Inr pt"
  by (simp add: sample_platform_def)

lemma default_key_material_length:
  "length (key_material (encryptionKey (new_DecryptionService no_config))) = 32"
  using default_key_ascii by (rule key_material_ascii(2))

lemma sample_documents_differ: "sample_json \<noteq> null_delay_json"
  by (simp add: sample_json_def null_delay_json_def quoted_def js_def)

lemma sample_JSON_stringify:
  "JSON_stringify sample_platform sample_raw = sample_json"
  "JSON_stringify sample_platform null_delay_raw = null_delay_json"
  by (simp_all add: sample_platform_def sample_raw_def null_delay_raw_def js_def)

lemma sample_JSON_parse:
  "JSON_parse sample_platform sample_json = Some sample_raw"
  "JSON_parse sample_platform null_delay_json = Some null_delay_raw"
  using sample_documents_differ by (simp_all add: sample_platform_def)

lemma sample_texts:
  "map ucast (TextEncoder_encode sample_json) = sample_json"
  "map ucast (TextEncoder_encode null_delay_json) = null_delay_json"
  "length (TextEncoder_encode sample_json) = 30"
  "length (TextEncoder_encode null_delay_json) = 54"
  by code_simp+

lemma sample_json_roundtrip:
  "JSON_parse sample_platform
     (TextDecoder_decode sample_platform
        (TextEncoder_encode (JSON_stringify sample_platform sample_raw))) = Some sample_raw"
  "JSON_parse sample_platform
     (TextDecoder_decode sample_platform
        (TextEncoder_encode (JSON_stringify sample_platform null_delay_raw))) = Some null_delay_raw"
  by (simp_all add: sample_JSON_stringify sample_platform_fields sample_texts sample_JSON_parse)

lemma sample_raw_typed: "typed_instruction_set sample_raw"
  by (simp add: typed_instruction_set_def sample_raw_def js_def)

text \<open>
  C1, as the code has it. Let \<open>I\<close> be an instruction set object with fields of the data
  model's types, its delay a number or absent, that passes \<open>validateInstructionSet\<close>; let
  the key have at least sixteen characters, as \<open>decrypt\<close> demands, and its first 32
  characters be ASCII, so that 32 bytes of key material are imported. Let the IV have
  \<open>IV_LENGTH\<close> bytes, the IV and ciphertext together be within what
  \<open>String.fromCharCode.apply\<close> can pass, the platform's AES-GCM decrypt what it encrypted,
  its ciphertext being longer than \<open>TAG_LENGTH\<close>, and \<open>JSON.stringify\<close>, UTF-8 and
  \<open>JSON.parse\<close> reproduce \<open>I\<close>. Then \<open>encrypt\<close> returns a payload, and \<open>decrypt\<close> of that
  payload returns an instruction set equal to \<open>I\<close> field for field, absent URLs and delay as
  null and absent flags as false.
\<close>

theorem decrypt_encrypt_roundtrip:
  assumes "validateInstructionSet P I = Inr V"
    and "typed_instruction_set I"
    and "validateDecryptionKey svc"
    and "\<forall>c \<in> set (take 32 (encryptionKey svc)). c < 0x80"
    and "length iv = IV_LENGTH svc"
    and "length (iv @ aes_gcm_encrypt P (key_material (encryptionKey svc)) iv
                        (TextEncoder_encode (JSON_stringify P I)))
         \<le> max_apply_arguments P"
    and "TAG_LENGTH svc <
           length (aes_gcm_encrypt P (key_material (encryptionKey svc)) iv
                     (TextEncoder_encode (JSON_stringify P I)))"
    and "aes_gcm_decrypt P (key_material (encryptionKey svc)) iv
           (aes_gcm_encrypt P (key_material (encryptionKey svc)) iv
              (TextEncoder_encode (JSON_stringify P I)))
         = Inr (TextEncoder_encode (JSON_stringify P I))"
    and "JSON_parse P (TextDecoder_decode P (TextEncoder_encode (JSON_stringify P I))) = Some I"
  shows "\<exists>payload R. snd (encrypt P svc iv I) = Inr payload
                      \<and> snd (decrypt P svc payload) = Inr R
                      \<and> equal_field_for_field I R"
proof -
  from encrypt_then_decrypt[OF assms(1,3-9)]
  obtain payload where "snd (encrypt P svc iv I) = Inr payload"
    and "snd (decrypt P svc payload) = Inr V"
    by blast
  moreover have "equal_field_for_field I V"
    using assms(1,2) by (rule validated_equal_field_for_field)
  ultimately show ?thesis
    by blast
qed

text \<open>The sample platform, the default service, \<open>{click_url: "https://x.test"}\<close>.\<close>

theorem decrypt_encrypt_roundtrip_witness:
  "\<exists>payload R.
     snd (encrypt sample_platform (new_DecryptionService no_config) (replicate 12 7) sample_raw)
       = Inr payload
     \<and> snd (decrypt sample_platform (new_DecryptionService no_config) payload) = Inr R
     \<and> equal_field_for_field sample_raw R"
proof (rule decrypt_encrypt_roundtrip[OF sample_raw_validated sample_raw_typed
         default_key_valid default_key_ascii])
  let ?k = "key_material (encryptionKey (new_DecryptionService no_config))"
  let ?pt = "TextEncoder_encode (JSON_stringify sample_platform sample_raw)"
  show "length (replicate 12 (7 :: 8 word)) = IV_LENGTH (new_DecryptionService no_config)"
    by (simp add: default_service)
  show "length (replicate 12 7 @ aes_gcm_encrypt sample_platform ?k (replicate 12 7) ?pt)
        \<le> max_apply_arguments sample_platform"
    by (simp add: sample_platform_fields sample_JSON_stringify sample_texts)
  show "TAG_LENGTH (new_DecryptionService no_config)
        < length (aes_gcm_encrypt sample_platform ?k (replicate 12 7) ?pt)"
    by (simp add: sample_platform_fields sample_JSON_stringify sample_texts default_service
        default_key_material_length)
  show "aes_gcm_decrypt sample_platform ?k (replicate 12 7)
          (aes_gcm_encrypt sample_platform ?k (replicate 12 7) ?pt) = Inr ?pt"
    by (rule sample_cipher_roundtrip) (simp add: default_key_material_length)
  show "JSON_parse sample_platform (TextDecoder_decode sample_platform ?pt) = Some sample_raw"
    by (rule sample_json_roundtrip)
qed

lemma short_key_payload_encoded:
  "strip_trailing_equals
     (replace_all 0x2F 0x5F (replace_all 0x2B 0x2D
        (b64_encode (map unat (replicate 12 (7 :: 8 word) @ TextEncoder_encode sample_json
                               @ take 16 (key_material (js ''short'')))))))
   = short_key_payload"
  by code_simp

lemma short_key_encrypts:
  "snd (encrypt sample_platform short_key_service (replicate 12 7) sample_raw)
     = Inr short_key_payload"
proof -
  let ?k = "key_material (encryptionKey short_key_service)"
  let ?pt = "TextEncoder_encode (JSON_stringify sample_platform sample_raw)"
  have k: "encryptionKey short_key_service = js ''short''"
    by (simp add: short_key_service_def)
  have "crypto_subtle_importKey sample_platform ?k = Inr ?k"
    using short_key_ascii by (rule key_imports)
  moreover have "length (replicate 12 7 @ aes_gcm_encrypt sample_platform ?k (replicate 12 7) ?pt)
                 \<le> max_apply_arguments sample_platform"
    by (simp add: sample_platform_fields sample_JSON_stringify sample_texts)
  ultimately have "snd (encrypt sample_platform short_key_service (replicate 12 7) sample_raw) =
      Inr (strip_trailing_equals
             (replace_all 0x2F 0x5F (replace_all 0x2B 0x2D
                (b64_encode
                   (map unat (replicate 12 7
                              @ aes_gcm_encrypt sample_platform ?k (replicate 12 7) ?pt))))))"
    by (rule encrypt_returns[OF sample_raw_validated])
  then show ?thesis
    by (simp only: sample_platform_fields sample_JSON_stringify k short_key_payload_encoded)
qed

text \<open>
  Under the default key the object with \<open>auto_click_delay: null\<close> goes through
  \<open>encrypt\<close> and \<open>decrypt\<close>, and comes back with the delay 0.
\<close>

lemma null_delay_payload_encoded:
  "strip_trailing_equals
     (replace_all 0x2F 0x5F (replace_all 0x2B 0x2D
        (b64_encode (map unat (replicate 12 (7 :: 8 word) @ TextEncoder_encode null_delay_json
                               @ take 16 (key_material default_encryption_key))))))
   = null_delay_payload"
  by code_simp

lemma null_delay_round_trip:
  "snd (encrypt sample_platform (new_DecryptionService no_config) (replicate 12 7) null_delay_raw)
     = Inr null_delay_payload"
  "snd (decrypt sample_platform (new_DecryptionService no_config) null_delay_payload)
     = Inr null_delay_result"
  "\<not> equal_field_for_field null_delay_raw null_delay_result"
proof -
  let ?svc = "new_DecryptionService no_config"
  let ?k = "key_material (encryptionKey ?svc)"
  let ?pt = "TextEncoder_encode (JSON_stringify sample_platform null_delay_raw)"
  have "crypto_subtle_importKey sample_platform ?k = Inr ?k"
    using default_key_ascii by (rule key_imports)
  moreover have "length (replicate 12 7 @ aes_gcm_encrypt sample_platform ?k (replicate 12 7) ?pt)
                 \<le> max_apply_arguments sample_platform"
    by (simp add: sample_platform_fields sample_JSON_stringify sample_texts)
  ultimately have "snd (encrypt sample_platform ?svc (replicate 12 7) null_delay_raw) =
      Inr (strip_trailing_equals
             (replace_all 0x2F 0x5F (replace_all 0x2B 0x2D
                (b64_encode
                   (map unat (replicate 12 7
                              @ aes_gcm_encrypt sample_platform ?k (replicate 12 7) ?pt))))))"
    by (rule encrypt_returns[OF null_delay_raw_validated])
  then show enc: "snd (encrypt sample_platform ?svc (replicate 12 7) null_delay_raw)
               = Inr null_delay_payload"
    by (simp only: sample_platform_fields sample_JSON_stringify default_service
        null_delay_payload_encoded)
  have "\<exists>payload. snd (encrypt sample_platform ?svc (replicate 12 7) null_delay_raw) = Inr payload
                   \<and> snd (decrypt sample_platform ?svc payload) = Inr null_delay_result"
  proof (rule encrypt_then_decrypt[OF null_delay_raw_validated default_key_valid
           default_key_ascii])
    show "length (replicate 12 (7 :: 8 word)) = IV_LENGTH ?svc"
      by (simp add: default_service)
    show "length (replicate 12 7 @ aes_gcm_encrypt sample_platform ?k (replicate 12 7) ?pt)
          \<le> max_apply_arguments sample_platform"
      by (simp add: sample_platform_fields sample_JSON_stringify sample_texts)
    show "TAG_LENGTH ?svc < length (aes_gcm_encrypt sample_platform ?k (replicate 12 7) ?pt)"
      by (simp add: sample_platform_fields sample_JSON_stringify sample_texts default_service
          default_key_material_length)
    show "aes_gcm_decrypt sample_platform ?k (replicate 12 7)
            (aes_gcm_encrypt sample_platform ?k (replicate 12 7) ?pt) = Inr ?pt"
      by (rule sample_cipher_roundtrip) (simp add: default_key_material_length)
    show "JSON_parse sample_platform (TextDecoder_decode sample_platform ?pt)
          = Some null_delay_raw"
      by (rule sample_json_roundtrip)
  qed
  with enc show "snd (decrypt sample_platform ?svc null_delay_payload) = Inr null_delay_result"
    by auto
  show "\<not> equal_field_for_field null_delay_raw null_delay_result"
    by (simp add: equal_field_for_field_def null_delay_raw_def null_delay_result_def js_def)
qed

text \<open>
  C1 as stated fails twice. For every configured key: \<open>setEncryptionKey\<close> accepts the key
  \<open>short\<close> and \<open>encrypt\<close> pads it to 32 bytes and returns a payload, but \<open>decrypt\<close>
  refuses every key under sixteen characters before it looks at the payload. And field for
  field: under the default key the object whose delay is \<open>null\<close> comes back with the
  delay 0.
\<close>

theorem decrypt_encrypt_roundtrip_counterexample:
  "setEncryptionKey (js ''short'') (new_DecryptionService no_config) = Inr short_key_service
   \<and> validateInstructionSet sample_platform sample_raw = Inr sample_validated
   \<and> snd (encrypt sample_platform short_key_service (replicate 12 7) sample_raw)
       = Inr short_key_payload
   \<and> snd (decrypt sample_platform short_key_service short_key_payload)
       = Inl (Error (js ''Failed to process encrypted payload'')
                (Some (js ''Invalid or missing decryption key'')))
   \<and> snd (encrypt sample_platform (new_DecryptionService no_config) (replicate 12 7)
            null_delay_raw) = Inr null_delay_payload
   \<and> snd (decrypt sample_platform (new_DecryptionService no_config) null_delay_payload)
       = Inr null_delay_result
   \<and> \<not> equal_field_for_field null_delay_raw null_delay_result"
proof (intro conjI)
  show "snd (encrypt sample_platform (new_DecryptionService no_config) (replicate 12 7)
          null_delay_raw) = Inr null_delay_payload"
    and "snd (decrypt sample_platform (new_DecryptionService no_config) null_delay_payload)
          = Inr null_delay_result"
    and "\<not> equal_field_for_field null_delay_raw null_delay_result"
    by (rule null_delay_round_trip)+
  show "setEncryptionKey (js ''short'') (new_DecryptionService no_config) = Inr short_key_service"
    by (simp add: setEncryptionKey_def short_key_service_def js_def)
  show "validateInstructionSet sample_platform sample_raw = Inr sample_validated"
    by (rule sample_raw_validated)
  show "snd (encrypt sample_platform short_key_service (replicate 12 7) sample_raw)
          = Inr short_key_payload"
    by (rule short_key_encrypts)
  have "\<not> validateDecryptionKey short_key_service"
    by (simp add: validateDecryptionKey_def short_key_service_def js_def)
  moreover have "short_key_payload \<noteq> []"
    by (simp add: short_key_payload_def js_def)
  moreover have "handleDecryptionError (Error (js ''Invalid or missing decryption key'') None)
                 = Error (js ''Failed to process encrypted payload'')
                     (Some (js ''Invalid or missing decryption key''))"
    by (simp add: handleDecryptionError_def js_def)
  ultimately show "snd (decrypt sample_platform short_key_service short_key_payload)
       = Inl (Error (js ''Failed to process encrypted payload'')
                (Some (js ''Invalid or missing decryption key'')))"
    by (simp add: decrypt_def)
qed

end
